theory Spec2Isabelle
  imports Main "HOL-Library.Sublist" "HOL-Library.Multiset"
begin

text \<open>
  A model of \<open>sms2mail.py\<close>, which forwards the received SMS of a modem managed by
  ModemManager to an email address: the normalisation of D-Bus values, the object-path
  codec, the proxies with their property snapshots, the lookups of modems and messages,
  the selection and ordering of the received messages, and one poll cycle with its send
  and delete attempts. The bus, the SMTP server and the library functions are parameters.
  The schedule of \<open>main\<close> (one cycle, or one every \<open>interval\<close> seconds) and the command
  line are not modelled.
\<close>

section \<open>Python values and D-Bus wire values\<close>

text \<open>
  The program is dynamically typed, so one datatype holds every value the modelled code
  handles. The \<open>DBus\<close> constructors are the classes of the dbus-python binding; each is a
  subclass of a Python builtin (\<open>dbus.String\<close> and \<open>dbus.ObjectPath\<close> of \<open>str\<close>, the integer
  classes of \<open>int\<close>, \<open>dbus.Array\<close> of \<open>list\<close>, \<open>dbus.Struct\<close> of \<open>tuple\<close>). \<open>DBusInt\<close> stands
  for the integer wire types other than the two 32-bit ones, \<open>DBusStruct\<close> for a container
  wire type that \<open>type_cast\<close> does not know. \<open>dbus.Double\<close>, \<open>dbus.Dictionary\<close>,
  \<open>dbus.Signature\<close>, \<open>dbus.ByteArray\<close> and \<open>dbus.UnixFd\<close> are not represented; \<open>type_cast\<close>
  sends them through the same last line as \<open>DBusInt\<close> and \<open>DBusStruct\<close>.

  A \<open>char\<close> stands for a code point below 256; strings with other code points are outside
  the model.
\<close>

datatype dbus_int = Byte | Boolean | Int16 | UInt16 | Int64 | UInt64

datatype pyval =
    PyNone
  | PyStr string
  | PyInt int
  | PyList "pyval list"
  | DBusString string
  | DBusObjectPath string
  | DBusInt32 int
  | DBusUInt32 int
  | DBusArray "pyval list"
  | DBusInt dbus_int int
  | DBusStruct "pyval list"

text \<open>The exceptions the modelled code can raise or catch. All are subclasses of
  Python's \<open>Exception\<close>.\<close>

datatype pyexc = ValueError | TypeError | IndexError | DBusException | SMTPException

text \<open>\<open>DBus.type_cast\<close> (lines 25-35).\<close>

fun type_cast :: "pyval \<Rightarrow> pyval" where
  "type_cast PyNone = PyNone"
| "type_cast (DBusString s) = PyStr s"
| "type_cast (DBusObjectPath s) = PyStr s"
| "type_cast (DBusInt32 n) = PyInt n"
| "type_cast (DBusUInt32 n) = PyInt n"
| "type_cast (DBusArray xs) = PyList (map type_cast xs)"
| "type_cast val = val"

subsection \<open>Python operators on these values\<close>

text \<open>\<open>isinstance(v, str)\<close>.\<close>

fun is_str :: "pyval \<Rightarrow> bool" where
  "is_str (PyStr s) = True"
| "is_str (DBusString s) = True"
| "is_str (DBusObjectPath s) = True"
| "is_str v = False"

text \<open>The builtin value under a D-Bus subclass: \<open>==\<close> and \<open>in\<close> compare these.\<close>

fun builtin :: "pyval \<Rightarrow> pyval" where
  "builtin PyNone = PyNone"
| "builtin (PyStr s) = PyStr s"
| "builtin (PyInt n) = PyInt n"
| "builtin (PyList xs) = PyList (map builtin xs)"
| "builtin (DBusString s) = PyStr s"
| "builtin (DBusObjectPath s) = PyStr s"
| "builtin (DBusInt32 n) = PyInt n"
| "builtin (DBusUInt32 n) = PyInt n"
| "builtin (DBusArray xs) = PyList (map builtin xs)"
| "builtin (DBusInt k n) = PyInt n"
| "builtin (DBusStruct xs) = DBusStruct (map builtin xs)"

text \<open>\<open>a == b\<close>: by value for strings and integers, elementwise for lists and tuples,
  false across the builtin types.\<close>

definition py_eq :: "pyval \<Rightarrow> pyval \<Rightarrow> bool" where
  "py_eq a b = (builtin a = builtin b)"

text \<open>Truth value of an object in \<open>if v:\<close> and \<open>v or w\<close>.\<close>

fun truthy :: "pyval \<Rightarrow> bool" where
  "truthy PyNone = False"
| "truthy (PyStr s) = (s \<noteq> [])"
| "truthy (PyInt n) = (n \<noteq> 0)"
| "truthy (PyList xs) = (xs \<noteq> [])"
| "truthy (DBusString s) = (s \<noteq> [])"
| "truthy (DBusObjectPath s) = (s \<noteq> [])"
| "truthy (DBusInt32 n) = (n \<noteq> 0)"
| "truthy (DBusUInt32 n) = (n \<noteq> 0)"
| "truthy (DBusArray xs) = (xs \<noteq> [])"
| "truthy (DBusInt k n) = (n \<noteq> 0)"
| "truthy (DBusStruct xs) = (xs \<noteq> [])"

text \<open>\<open>a in c\<close>: substring test when \<open>c\<close> is a string (the left operand must be a string
  too), membership by \<open>==\<close> when \<open>c\<close> is a list or a tuple, \<open>TypeError\<close> when \<open>c\<close> is \<open>None\<close>
  or an integer.\<close>

definition py_in :: "pyval \<Rightarrow> pyval \<Rightarrow> pyexc + bool" where
  "py_in a c =
     (case builtin c of
        PyStr s \<Rightarrow> (case builtin a of PyStr t \<Rightarrow> Inr (sublist t s) | _ \<Rightarrow> Inl TypeError)
      | PyList xs \<Rightarrow> Inr (list_ex (\<lambda>x. x = builtin a) xs)
      | DBusStruct xs \<Rightarrow> Inr (list_ex (\<lambda>x. x = builtin a) xs)
      | _ \<Rightarrow> Inl TypeError)"

text \<open>The elements \<open>for x in v\<close> and \<open>map(f, v)\<close> run over; \<open>TypeError\<close> when \<open>v\<close> is not
  iterable. A string iterates over its one-character substrings.\<close>

fun py_iter :: "pyval \<Rightarrow> pyexc + pyval list" where
  "py_iter (PyList xs) = Inr xs"
| "py_iter (DBusArray xs) = Inr xs"
| "py_iter (DBusStruct xs) = Inr xs"
| "py_iter (PyStr s) = Inr (map (\<lambda>c. PyStr [c]) s)"
| "py_iter (DBusString s) = Inr (map (\<lambda>c. PyStr [c]) s)"
| "py_iter (DBusObjectPath s) = Inr (map (\<lambda>c. PyStr [c]) s)"
| "py_iter v = Inl TypeError"

text \<open>Whether \<open>hash(v)\<close> succeeds, as a dictionary lookup needs.\<close>

fun hashable :: "pyval \<Rightarrow> bool" where
  "hashable (PyList xs) = False"
| "hashable (DBusArray xs) = False"
| "hashable (DBusStruct xs) = list_all hashable xs"
| "hashable v = True"

section \<open>Strings\<close>

text \<open>\<open>s.split(c)\<close> for a one-character separator: never empty.\<close>

fun split_sep :: "char \<Rightarrow> string \<Rightarrow> string list" where
  "split_sep c [] = [[]]"
| "split_sep c (x # xs) =
     (if x = c then [] # split_sep c xs
      else (case split_sep c xs of [] \<Rightarrow> [[x]] | w # ws \<Rightarrow> (x # w) # ws))"

text \<open>\<open>xs[-1]\<close> and \<open>xs[1]\<close>, with the \<open>IndexError\<close> of a list too short.\<close>

definition index_last :: "'a list \<Rightarrow> pyexc + 'a" where
  "index_last xs = (if xs = [] then Inl IndexError else Inr (last xs))"

definition index_1 :: "'a list \<Rightarrow> pyexc + 'a" where
  "index_1 xs = (if length xs < 2 then Inl IndexError else Inr (xs ! 1))"

text \<open>The decimal numeral of an integer: its digits, with a minus sign when negative.\<close>

definition digit_char :: "nat \<Rightarrow> char" where
  "digit_char d = char_of (48 + d)"

function decimal_nat :: "nat \<Rightarrow> string" where
  "decimal_nat n = (if n < 10 then [digit_char n] else decimal_nat (n div 10) @ [digit_char (n mod 10)])"
  by pat_completeness auto
termination
  by (relation "measure id") auto

declare decimal_nat.simps [simp del]

definition decimal :: "int \<Rightarrow> string" where
  "decimal i = (if i < 0 then CHR ''-'' # decimal_nat (nat (- i)) else decimal_nat (nat i))"

text \<open>
  The interpreter refuses a conversion between an integer and a decimal string of more
  than \<open>sys.get_int_max_str_digits()\<close> digits, 4300 unless the environment of the process
  changes it (the program does not): it raises \<open>ValueError\<close>. \<open>"%d" % n\<close> is such a
  conversion; the sign does not count.
\<close>

definition max_str_digits :: nat where
  "max_str_digits = 4300"

definition format_d :: "int \<Rightarrow> pyexc + string" where
  "format_d i =
     (if max_str_digits < length (decimal_nat (nat \<bar>i\<bar>)) then Inl ValueError
      else Inr (decimal i))"

text \<open>Whether the numeral of an integer is within the limit.\<close>

definition fits :: "int \<Rightarrow> bool" where
  "fits i = (length (decimal_nat (nat \<bar>i\<bar>)) \<le> max_str_digits)"

text \<open>
  \<open>int(s)\<close> for a string, base 10: optional whitespace, an optional sign, digits with
  single underscores between them, optional whitespace. Whitespace is the ASCII set of the
  integer parser (tab to carriage return, space) and, among the code points below 256,
  the two Unicode spaces U+0085 and U+00A0, which the interpreter maps to a space before
  parsing. A string with more than \<open>max_str_digits\<close> digits is refused, leading zeros
  counted and underscores not. \<open>None\<close> is the \<open>ValueError\<close>.
\<close>

definition is_space :: "char \<Rightarrow> bool" where
  "is_space c = (let k = (of_char c :: nat) in (9 \<le> k \<and> k \<le> 13) \<or> k = 32 \<or> k = 133 \<or> k = 160)"

definition is_digit :: "char \<Rightarrow> bool" where
  "is_digit c = (let k = (of_char c :: nat) in 48 \<le> k \<and> k \<le> 57)"

definition digit_val :: "char \<Rightarrow> nat" where
  "digit_val c = of_char c - 48"

fun parse_rest :: "nat \<Rightarrow> string \<Rightarrow> nat option" where
  "parse_rest acc [] = Some acc"
| "parse_rest acc [c] = (if is_digit c then Some (10 * acc + digit_val c) else None)"
| "parse_rest acc (c # d # cs) =
     (if is_digit c then parse_rest (10 * acc + digit_val c) (d # cs)
      else if c = CHR ''_'' \<and> is_digit d then parse_rest (10 * acc + digit_val d) cs
      else None)"

definition parse_digits :: "string \<Rightarrow> nat option" where
  "parse_digits s = (case s of [] \<Rightarrow> None | c # cs \<Rightarrow> if is_digit c then parse_rest (digit_val c) cs else None)"

definition int_of_str :: "string \<Rightarrow> int option" where
  "int_of_str s =
     (let t = dropWhile is_space s;
          neg = (t \<noteq> [] \<and> hd t = CHR ''-'');
          u = (if t \<noteq> [] \<and> (hd t = CHR ''-'' \<or> hd t = CHR ''+'') then tl t else t);
          v = rev (dropWhile is_space (rev u))
      in case parse_digits v of
           None \<Rightarrow> None
         | Some n \<Rightarrow>
             if max_str_digits < length (filter is_digit v) then None
             else Some (if neg then - int n else int n))"

text \<open>\<open>int(v)\<close>: \<open>TypeError\<close> for \<open>None\<close> and containers, \<open>ValueError\<close> for a string that is
  not a number.\<close>

definition py_int :: "pyval \<Rightarrow> pyexc + int" where
  "py_int v =
     (case builtin v of
        PyInt n \<Rightarrow> Inr n
      | PyStr s \<Rightarrow> (case int_of_str s of None \<Rightarrow> Inl ValueError | Some n \<Rightarrow> Inr n)
      | _ \<Rightarrow> Inl TypeError)"

section \<open>Effects\<close>

text \<open>
  What a run does besides returning a value is recorded as a list of events, in the order
  they happen: a log record (level, format string, arguments), a call on the bus, the
  SMTP session that \<open>send_email\<close> opens. A computation yields the events it produced and
  either the exception that ended it or its value. The events of a computation that raises
  are kept: they happened before the exception.
\<close>

datatype loglevel = INFO | WARNING | ERROR

datatype logarg = Val pyval | Exc pyexc | Iface string

text \<open>A piece of an f-string: literal text, or the \<open>format\<close> of a value.\<close>

datatype fpart = Lit string | Fmt pyval

record email =
  from_name :: string
  from_email :: string
  from_domain :: string
  to_addrs :: "(string \<times> string) list"
  subject :: "fpart list"
  body :: "fpart list"

datatype event =
    Log loglevel string "logarg list"
  | GetManagedObjects
  | GetAll string string
  | SmtpSend email
  | Delete string string

type_synonym 'a io = "event list \<times> (pyexc + 'a)"

definition io_return :: "'a \<Rightarrow> 'a io" where
  "io_return x = ([], Inr x)"

definition io_raise :: "pyexc \<Rightarrow> 'a io" where
  "io_raise e = ([], Inl e)"

definition io_lift :: "pyexc + 'a \<Rightarrow> 'a io" where
  "io_lift r = ([], r)"

definition io_emit :: "event \<Rightarrow> unit io" where
  "io_emit e = ([e], Inr ())"

definition io_bind :: "'a io \<Rightarrow> ('a \<Rightarrow> 'b io) \<Rightarrow> 'b io" where
  "io_bind m f =
     (case m of
        (es, Inl e) \<Rightarrow> (es, Inl e)
      | (es, Inr x) \<Rightarrow> (case f x of (es', r) \<Rightarrow> (es @ es', r)))"

fun io_map :: "('a \<Rightarrow> 'b io) \<Rightarrow> 'a list \<Rightarrow> 'b list io" where
  "io_map f [] = io_return []"
| "io_map f (x # xs) = io_bind (f x) (\<lambda>y. io_bind (io_map f xs) (\<lambda>ys. io_return (y # ys)))"

section \<open>The environment of a run\<close>

text \<open>
  A \<open>datetime\<close> is kept as what its comparison reads. A naive one (no UTC offset) is the
  number of microseconds from \<open>datetime.min\<close> to it; an aware one is its UTC instant, in
  microseconds from 0001-01-01T00:00:00 UTC, which an offset can make negative. \<open>a < b\<close>
  compares two naive or two aware values and raises \<open>TypeError\<close> for one of each.
\<close>

datatype datetime = Naive nat | Aware int

definition datetime_min :: datetime where
  "datetime_min = Naive 0"

fun dt_less :: "datetime \<Rightarrow> datetime \<Rightarrow> pyexc + bool" where
  "dt_less (Naive a) (Naive b) = Inr (a < b)"
| "dt_less (Aware a) (Aware b) = Inr (a < b)"
| "dt_less a b = Inl TypeError"

text \<open>
  The bus, the SMTP server and the library functions the program calls are parameters of
  the model. \<open>managed_objects\<close> is the keys of the reply to \<open>GetManagedObjects\<close>, in the
  reply's order; \<open>get_all p i\<close> is the reply to \<open>GetAll\<close> for interface \<open>i\<close> of the object at
  path \<open>p\<close>, as a dictionary in its order; \<open>bus_delete m p\<close> is the outcome of \<open>Delete(p)\<close> on
  the messaging interface of the modem at \<open>m\<close>; \<open>smtp e\<close> is the outcome of the SMTP session
  (connect, STARTTLS, login, sendmail) for the message \<open>e\<close>. \<open>None\<close> is success for the last
  two, and the \<open>DBusException\<close> for the first two. The model covers the runs in which the
  system bus and the ModemManager service can be reached, so that binding a proxy to a
  path succeeds, and in which the email library composes the headers of lines 242-247
  without an exception. One cycle sees one state of the bus.
\<close>

record env =
  managed_objects :: "pyval list option"
  get_all :: "string \<Rightarrow> string \<Rightarrow> (string \<times> pyval) list option"
  bus_delete :: "string \<Rightarrow> string \<Rightarrow> pyexc option"
  smtp :: "email \<Rightarrow> pyexc option"
  fromisoformat :: "string \<Rightarrow> datetime option"
  strftime :: "datetime \<Rightarrow> string"
  parseaddr :: "string \<Rightarrow> string \<times> string"

text \<open>The values \<open>main\<close> reads from the configuration file and the command line.\<close>

record config =
  mail_from :: string
  mail_to :: "(string \<times> string) list"
  known_senders :: "pyval \<Rightarrow> pyval option"
  delete_after_sending :: bool

section \<open>Object paths\<close>

text \<open>\<open>MMSmsState\<close> (lines 13-19).\<close>

definition MM_SMS_STATE_UNKNOWN :: int where "MM_SMS_STATE_UNKNOWN = 0"
definition MM_SMS_STATE_STORED :: int where "MM_SMS_STATE_STORED = 1"
definition MM_SMS_STATE_RECEIVING :: int where "MM_SMS_STATE_RECEIVING = 2"
definition MM_SMS_STATE_RECEIVED :: int where "MM_SMS_STATE_RECEIVED = 3"
definition MM_SMS_STATE_SENDING :: int where "MM_SMS_STATE_SENDING = 4"
definition MM_SMS_STATE_SENT :: int where "MM_SMS_STATE_SENT = 5"

text \<open>\<open>ModemManagerObject.object_path\<close> (lines 78-92). \<open>objbasepath\<close> is line 80,
  \<open>object_id\<close> lines 82-85, with the \<open>IndexError\<close> that \<open>[-1]\<close> could raise outside the
  \<open>try\<close>. Line 89 converts twice, \<open>int(objid)\<close> and then \<open>%d\<close>, and either can raise; the
  \<open>try\<close> catches \<open>ValueError\<close> and \<open>TypeError\<close> only. (Floating-point identifiers are
  outside the model; \<open>int\<close> of an infinite one raises \<open>OverflowError\<close>.)\<close>

definition objbasepath :: "string \<Rightarrow> string" where
  "objbasepath obj = ''/org/freedesktop/ModemManager1/'' @ obj @ ''/''"

fun str_val :: "pyval \<Rightarrow> string" where
  "str_val (PyStr s) = s"
| "str_val (DBusString s) = s"
| "str_val (DBusObjectPath s) = s"
| "str_val v = []"

definition object_id :: "string \<Rightarrow> pyval \<Rightarrow> pyexc + pyval" where
  "object_id obj path =
     (if is_str path \<and> sublist (objbasepath obj) (str_val path)
      then (case index_last (split_sep CHR ''/'' (str_val path)) of
              Inl e \<Rightarrow> Inl e
            | Inr s \<Rightarrow> Inr (PyStr s))
      else Inr path)"

definition object_path :: "string \<Rightarrow> pyval \<Rightarrow> string option io" where
  "object_path obj path =
     io_bind (io_lift (object_id obj path)) (\<lambda>objid.
       case (case py_int objid of Inl e \<Rightarrow> Inl e | Inr n \<Rightarrow> format_d n) of
         Inr s \<Rightarrow> io_return (Some (objbasepath obj @ s))
       | Inl e \<Rightarrow>
           if e = ValueError \<or> e = TypeError
           then io_bind (io_emit (Log ERROR ''Bad object ID provided: %s'' [Val objid]))
                  (\<lambda>_. io_return None)
           else io_raise e)"

text \<open>An optional path as the Python value it is: \<open>None\<close> or a string.\<close>

definition path_val :: "string option \<Rightarrow> pyval" where
  "path_val p = (case p of None \<Rightarrow> PyNone | Some s \<Rightarrow> PyStr s)"

section \<open>Proxies and their property snapshots\<close>

text \<open>
  An instance of \<open>DBusInterface\<close>: the path its proxy is bound to, the interface name and
  the snapshot of the properties taken by the constructor (\<open>None\<close> when \<open>GetAll\<close> failed).
  \<open>MMModem\<close>, \<open>MMModemSms\<close> and \<open>MMModemMessaging\<close> add methods only.
\<close>

record dbus_interface =
  obj_path :: string
  iface_name :: string
  properties :: "(string \<times> pyval) list option"

text \<open>\<open>get_properties\<close> (lines 105-111), called once, by the constructor.\<close>

definition get_properties :: "env \<Rightarrow> string \<Rightarrow> string \<Rightarrow> (string \<times> pyval) list option io" where
  "get_properties E p i =
     io_bind (io_emit (GetAll p i)) (\<lambda>_.
       case get_all E p i of
         Some d \<Rightarrow> io_return (Some d)
       | None \<Rightarrow>
           io_bind (io_emit (Log ERROR ''Cannot get %s interface properties: %s'' [Iface i, Exc DBusException]))
             (\<lambda>_. io_return None))"

text \<open>\<open>get_property\<close> (lines 116-119): an empty or missing snapshot and a missing name
  give \<open>None\<close>.\<close>

definition get_property :: "dbus_interface \<Rightarrow> string \<Rightarrow> pyval" where
  "get_property self n =
     (case properties self of
        None \<Rightarrow> PyNone
      | Some d \<Rightarrow>
          (if d \<noteq> [] then (case map_of d n of None \<Rightarrow> PyNone | Some v \<Rightarrow> type_cast v)
           else PyNone))"

text \<open>The constructors of \<open>DBusInterface\<close> over \<open>DBusObject\<close> (lines 66-69, 99-103):
  binding a proxy to no path raises \<open>TypeError\<close> in the bus library.\<close>

definition new_interface :: "env \<Rightarrow> string option \<Rightarrow> string \<Rightarrow> dbus_interface io" where
  "new_interface E path i =
     (case path of
        None \<Rightarrow> io_raise TypeError
      | Some p \<Rightarrow>
          io_bind (get_properties E p i) (\<lambda>props.
            io_return \<lparr>obj_path = p, iface_name = i, properties = props\<rparr>))"

definition MMModem :: "env \<Rightarrow> pyval \<Rightarrow> dbus_interface io" where
  "MMModem E modem =
     io_bind (object_path ''Modem'' modem) (\<lambda>path.
       new_interface E path ''org.freedesktop.ModemManager1.Modem'')"

definition MMModemSms :: "env \<Rightarrow> pyval \<Rightarrow> dbus_interface io" where
  "MMModemSms E sms =
     io_bind (object_path ''SMS'' sms) (\<lambda>path.
       new_interface E path ''org.freedesktop.ModemManager1.Sms'')"

definition Number :: "dbus_interface \<Rightarrow> pyval" where
  "Number self = get_property self ''Number''"

definition Text :: "dbus_interface \<Rightarrow> pyval" where
  "Text self = get_property self ''Text''"

definition State :: "dbus_interface \<Rightarrow> pyval" where
  "State self = get_property self ''State''"

definition Timestamp :: "dbus_interface \<Rightarrow> pyval" where
  "Timestamp self = get_property self ''Timestamp''"

text \<open>\<open>get_datetime\<close> (lines 158-165): \<open>fromisoformat\<close> raises \<open>TypeError\<close> for an argument
  that is not a string, which the \<open>except ValueError\<close> does not catch.\<close>

definition get_datetime :: "env \<Rightarrow> dbus_interface \<Rightarrow> datetime option io" where
  "get_datetime E self =
     (let stamp = Timestamp self in
      if truthy stamp then
        (if is_str stamp then
           (case fromisoformat E (str_val stamp) of
              Some dt \<Rightarrow> io_return (Some dt)
            | None \<Rightarrow>
                io_bind (io_emit (Log WARNING ''Invalid timestamp format: %s'' [Val stamp]))
                  (\<lambda>_. io_return None))
         else io_raise TypeError)
      else io_return None)"

text \<open>\<open>get_date\<close> (lines 167-171); the u-umlaut is code point 252.\<close>

definition get_date :: "env \<Rightarrow> dbus_interface \<Rightarrow> string io" where
  "get_date E self =
     io_bind (get_datetime E self) (\<lambda>dt.
       case dt of
         Some d \<Rightarrow> io_return (strftime E d)
       | None \<Rightarrow> io_return (''Datum nicht verf'' @ [char_of (252 :: nat)] @ ''gbar''))"

section \<open>The messaging service\<close>

text \<open>
  \<open>list.sort(key=..., reverse=...)\<close> computes the key of every element first, in list
  order, and then sorts by \<open><\<close> on the keys. It is stable, and with \<open>reverse=True\<close> it
  reverses the list, sorts it and reverses the result, so that equal keys keep their
  order. An exception raised by a comparison ends the sort. The insertion sort below stands
  for the library's merge sort: a stable sort has one result, and a list that holds a naive
  and an aware key makes either algorithm compare one with the other.
\<close>

fun insert_by_key :: "datetime \<times> 'a \<Rightarrow> (datetime \<times> 'a) list \<Rightarrow> pyexc + (datetime \<times> 'a) list" where
  "insert_by_key x [] = Inr [x]"
| "insert_by_key x (y # ys) =
     (case dt_less (fst y) (fst x) of
        Inl e \<Rightarrow> Inl e
      | Inr True \<Rightarrow> (case insert_by_key x ys of Inl e \<Rightarrow> Inl e | Inr r \<Rightarrow> Inr (y # r))
      | Inr False \<Rightarrow> Inr (x # y # ys))"

fun stable_sort :: "(datetime \<times> 'a) list \<Rightarrow> pyexc + (datetime \<times> 'a) list" where
  "stable_sort [] = Inr []"
| "stable_sort (x # xs) =
     (case stable_sort xs of Inl e \<Rightarrow> Inl e | Inr r \<Rightarrow> insert_by_key x r)"

definition list_sort :: "bool \<Rightarrow> (datetime \<times> 'a) list \<Rightarrow> pyexc + 'a list" where
  "list_sort reverse kxs =
     (if reverse
      then (case stable_sort (rev kxs) of Inl e \<Rightarrow> Inl e | Inr r \<Rightarrow> Inr (map snd (rev r)))
      else (case stable_sort kxs of Inl e \<Rightarrow> Inl e | Inr r \<Rightarrow> Inr (map snd r)))"

text \<open>The key function of line 191. A \<open>datetime\<close> is never false, so \<open>or\<close> picks
  \<open>datetime.min\<close> exactly when \<open>get_datetime\<close> returned \<open>None\<close>.\<close>

definition datetime_key :: "env \<Rightarrow> dbus_interface \<Rightarrow> (datetime \<times> dbus_interface) io" where
  "datetime_key E x =
     io_bind (get_datetime E x) (\<lambda>dt.
       io_return (case dt of Some d \<Rightarrow> (d, x) | None \<Rightarrow> (datetime_min, x)))"

text \<open>The result of a method that returns one object, a list of them, or \<open>None\<close>.\<close>

datatype 'a shape = Single 'a | Many "'a list" | Nothing

text \<open>\<open>MMModemMessaging\<close> (lines 173-181): a modem that is not an \<open>MMModem\<close> is made one
  first; the proxy is the modem's.\<close>

definition MMModemMessaging :: "env \<Rightarrow> pyval + dbus_interface \<Rightarrow> dbus_interface io" where
  "MMModemMessaging E modem =
     io_bind (case modem of Inl v \<Rightarrow> MMModem E v | Inr m \<Rightarrow> io_return m) (\<lambda>m.
       io_bind (get_properties E (obj_path m) ''org.freedesktop.ModemManager1.Modem.Messaging'') (\<lambda>props.
         io_return \<lparr>obj_path = obj_path m,
                    iface_name = ''org.freedesktop.ModemManager1.Modem.Messaging'',
                    properties = props\<rparr>))"

definition Messages :: "dbus_interface \<Rightarrow> pyval" where
  "Messages self = get_property self ''Messages''"

text \<open>Lines 185-190: one \<open>MMModemSms\<close> per listed path, those in state \<open>Received\<close> kept.
  The test of the state has no effect and raises nothing, so it does not matter that
  Python runs it between the constructions.\<close>

definition is_received :: "dbus_interface \<Rightarrow> bool" where
  "is_received x = py_eq (State x) (PyInt MM_SMS_STATE_RECEIVED)"

definition received :: "env \<Rightarrow> dbus_interface \<Rightarrow> bool \<Rightarrow> dbus_interface list io" where
  "received E self reverse =
     io_bind (io_lift (py_iter (Messages self))) (\<lambda>paths.
       io_bind (io_map (MMModemSms E) paths) (\<lambda>constructed.
         io_bind (io_map (datetime_key E) (filter is_received constructed)) (\<lambda>keyed.
           io_lift (list_sort reverse keyed))))"

text \<open>\<open>get_sms\<close> (lines 183-196).\<close>

definition get_sms :: "env \<Rightarrow> dbus_interface \<Rightarrow> pyval \<Rightarrow> bool \<Rightarrow> dbus_interface shape io" where
  "get_sms E self sms reverse =
     (if sms = PyNone
      then io_bind (received E self reverse) (\<lambda>messages. io_return (Many messages))
      else
        io_bind (object_path ''SMS'' sms) (\<lambda>smspath.
          io_bind (io_lift (py_in (path_val smspath) (Messages self))) (\<lambda>found.
            if found
            then io_bind (MMModemSms E (path_val smspath)) (\<lambda>m. io_return (Single m))
            else io_return Nothing)))"

text \<open>\<open>delete_sms\<close> (lines 198-199): the exception of a failed call is raised.\<close>

definition delete_sms :: "env \<Rightarrow> dbus_interface \<Rightarrow> string \<Rightarrow> unit io" where
  "delete_sms E self sms_path =
     io_bind (io_emit (Delete (obj_path self) sms_path)) (\<lambda>_.
       case bus_delete E (obj_path self) sms_path of
         None \<Rightarrow> io_return ()
       | Some e \<Rightarrow> io_raise e)"

section \<open>The modem manager\<close>

record modem_manager =
  modems :: "string list"

text \<open>\<open>get_modems_list\<close> (lines 208-213), over the keys of the reply.\<close>

fun get_modems_list :: "pyval list \<Rightarrow> string list" where
  "get_modems_list [] = []"
| "get_modems_list (DBusObjectPath p # ps) = p # get_modems_list ps"
| "get_modems_list (v # ps) = get_modems_list ps"

definition ModemManager :: "env \<Rightarrow> modem_manager io" where
  "ModemManager E =
     io_bind (io_emit GetManagedObjects) (\<lambda>_.
       case managed_objects E of
         None \<Rightarrow> io_raise DBusException
       | Some ks \<Rightarrow> io_return \<lparr>modems = get_modems_list ks\<rparr>)"

text \<open>\<open>get_modem\<close> (lines 215-219): \<open>None in self.modems\<close> is false, the list holds
  strings.\<close>

definition get_modem :: "env \<Rightarrow> modem_manager \<Rightarrow> pyval \<Rightarrow> dbus_interface option io" where
  "get_modem E self modem =
     io_bind (object_path ''Modem'' modem) (\<lambda>mpath.
       if (case mpath of None \<Rightarrow> False | Some p \<Rightarrow> p \<in> set (modems self))
       then io_bind (MMModem E (path_val mpath)) (\<lambda>m. io_return (Some m))
       else io_return None)"

definition get_first :: "env \<Rightarrow> modem_manager \<Rightarrow> dbus_interface option io" where
  "get_first E self =
     (case modems self of
        [] \<Rightarrow> io_return None
      | p # ps \<Rightarrow> get_modem E self (PyStr p))"

text \<open>Lines 231-233: each modem is constructed and tested before the next one is, and
  the \<open>in\<close> of the test can raise.\<close>

fun matching_modems :: "env \<Rightarrow> string \<Rightarrow> pyval \<Rightarrow> string list \<Rightarrow> dbus_interface list io" where
  "matching_modems E n v [] = io_return []"
| "matching_modems E n v (p # ps) =
     io_bind (MMModem E (PyStr p)) (\<lambda>x.
       io_bind (io_lift (py_in v (get_property x n))) (\<lambda>keep.
         io_bind (matching_modems E n v ps) (\<lambda>rest.
           io_return (if keep then x # rest else rest))))"

text \<open>\<open>get_modem_by\<close> (lines 226-237).\<close>

definition get_modem_by :: "env \<Rightarrow> modem_manager \<Rightarrow> string \<Rightarrow> pyval \<Rightarrow> dbus_interface shape io" where
  "get_modem_by E self n v =
     (if v = PyNone
      then io_bind (get_first E self) (\<lambda>r.
             io_return (case r of None \<Rightarrow> Nothing | Some m \<Rightarrow> Single m))
      else if n \<in> set [''Manufacturer'', ''Model'', ''EquipmentIdentifier'',
                        ''OwnNumbers'', ''PrimaryPort'', ''State'']
      then io_bind (matching_modems E n v (modems self)) (\<lambda>ms.
             if length ms = 1 then io_return (Single (ms ! 0)) else io_return (Many ms))
      else io_return Nothing)"

section \<open>Delivery\<close>

text \<open>
  \<open>send_email\<close> (lines 239-256). Lines 240-241 run before the \<open>try\<close>: the \<open>IndexError\<close> of
  \<open>split('@')[1]\<close> on an address without \<open>@\<close> leaves the function. Everything the SMTP
  session raises is caught and logged, and the function returns \<open>None\<close> either way. Server,
  port, user and password are fixed for a run and stand behind \<open>smtp\<close>.
\<close>

definition send_email :: "env \<Rightarrow> config \<Rightarrow> fpart list \<Rightarrow> fpart list \<Rightarrow> unit io" where
  "send_email E C subj bdy =
     (let (fname, femail) = parseaddr E (mail_from C) in
      io_bind (io_lift (index_1 (split_sep CHR ''@'' femail))) (\<lambda>fdomain.
        let msg = \<lparr>from_name = fname, from_email = femail, from_domain = fdomain,
                   to_addrs = mail_to C, subject = subj, body = bdy\<rparr> in
        io_bind (io_emit (SmtpSend msg)) (\<lambda>_.
          case smtp E msg of
            None \<Rightarrow> io_emit (Log INFO ''Email sent successfully.'' [])
          | Some e \<Rightarrow> io_emit (Log ERROR ''Failed to send email: %s'' [Exc e]))))"

text \<open>\<open>known_senders.get(k, k)\<close> (line 277): a key that cannot be hashed raises.\<close>

definition sender_name_of :: "config \<Rightarrow> pyval \<Rightarrow> pyexc + pyval" where
  "sender_name_of C k =
     (if hashable k then Inr (case known_senders C k of None \<Rightarrow> k | Some v \<Rightarrow> v)
      else Inl TypeError)"

text \<open>Lines 291-296.\<close>

definition delete_after :: "env \<Rightarrow> dbus_interface \<Rightarrow> dbus_interface \<Rightarrow> unit io" where
  "delete_after E messaging msg =
     (case delete_sms E messaging (obj_path msg) of
        (es, Inr u) \<Rightarrow> (es @ [Log INFO ''Deleted SMS %s'' [Val (PyStr (obj_path msg))]], Inr ())
      | (es, Inl e) \<Rightarrow>
          (es @ [Log ERROR ''Failed to delete SMS %s: %s'' [Val (PyStr (obj_path msg)), Exc e]], Inr ()))"

text \<open>The body of the loop (lines 276-296) for one message.\<close>

definition process_message :: "env \<Rightarrow> config \<Rightarrow> dbus_interface \<Rightarrow> dbus_interface \<Rightarrow> unit io" where
  "process_message E C messaging msg =
     (let sender_number = Number msg in
      io_bind (io_lift (sender_name_of C sender_number)) (\<lambda>sender_name.
        io_bind (io_emit (Log INFO ''SMS from %s: %s'' [Val sender_number, Val (Text msg)])) (\<lambda>_.
          io_bind (get_date E msg) (\<lambda>date.
            io_bind (send_email E C
                       [Lit ''New SMS from '', Fmt sender_name]
                       [Lit ''From: '', Fmt sender_name, Lit (''\<newline>Date: '' @ date @ ''\<newline>\<newline>''), Fmt (Text msg)])
              (\<lambda>_. if delete_after_sending C then delete_after E messaging msg
                    else io_return ())))))"

fun for_each :: "('a \<Rightarrow> unit io) \<Rightarrow> 'a list \<Rightarrow> unit io" where
  "for_each f [] = io_return ()"
| "for_each f (x # xs) = io_bind (f x) (\<lambda>_. for_each f xs)"

text \<open>\<open>process_messages\<close> (lines 269-296), one poll cycle. An \<open>MMModem\<close> object is always
  true in \<open>if modem:\<close>. \<open>get_sms()\<close> is called without an identifier.\<close>

definition process_messages :: "env \<Rightarrow> config \<Rightarrow> unit io" where
  "process_messages E C =
     io_bind (ModemManager E) (\<lambda>mm.
       io_bind (get_first E mm) (\<lambda>modem.
         case modem of
           None \<Rightarrow> io_return ()
         | Some m \<Rightarrow>
             io_bind (MMModemMessaging E (Inr m)) (\<lambda>messaging.
               io_bind (get_sms E messaging PyNone True) (\<lambda>messages.
                 case messages of
                   Many ms \<Rightarrow> for_each (process_message E C messaging) ms
                 | _ \<Rightarrow> io_raise TypeError))))"

section \<open>What a trace shows\<close>

text \<open>A property fetch (every constructor of an entity makes exactly one), an SMTP
  session, a delete call.\<close>

fun is_fetch :: "event \<Rightarrow> bool" where
  "is_fetch (GetAll p i) = True"
| "is_fetch e = False"

fun is_send :: "event \<Rightarrow> bool" where
  "is_send (SmtpSend m) = True"
| "is_send e = False"

fun is_delete :: "event \<Rightarrow> bool" where
  "is_delete (Delete m p) = True"
| "is_delete e = False"

text \<open>The send and delete attempts of a trace, in order.\<close>

definition attempts :: "event list \<Rightarrow> event list" where
  "attempts es = filter (\<lambda>e. is_send e \<or> is_delete e) es"

text \<open>Two runs take the same course when they end the same way and make the same send
  and delete attempts.\<close>

definition same_course :: "'a io \<Rightarrow> 'a io \<Rightarrow> bool" where
  "same_course m m' = (snd m = snd m' \<and> attempts (fst m) = attempts (fst m'))"

text \<open>The position of a key on its time line, and whether the keys of a list can be
  compared with one another: all naive or all aware.\<close>

fun key_ord :: "datetime \<Rightarrow> int" where
  "key_ord (Naive n) = int n"
| "key_ord (Aware i) = i"

fun is_naive :: "datetime \<Rightarrow> bool" where
  "is_naive (Naive n) = True"
| "is_naive (Aware i) = False"

definition comparable :: "datetime list \<Rightarrow> bool" where
  "comparable ks = (list_all is_naive ks \<or> list_all (\<lambda>k. \<not> is_naive k) ks)"

section \<open>A sample bus\<close>

text \<open>
  One modem with two messages, for the concrete runs below. The property dictionaries of
  the two messages and the outcome of the SMTP session are left open. \<open>sample_parser\<close> and
  \<open>sample_format\<close> are \<open>datetime.fromisoformat\<close> and \<open>strftime\<close> with the format of line
  170, at the three time stamps the runs use; the third carries a UTC offset and parses
  to an aware \<open>datetime\<close>.
\<close>

definition modem0 :: string where
  "modem0 = ''/org/freedesktop/ModemManager1/Modem/0''"

definition sms1 :: string where
  "sms1 = ''/org/freedesktop/ModemManager1/SMS/1''"

definition sms2 :: string where
  "sms2 = ''/org/freedesktop/ModemManager1/SMS/2''"

definition sample_parser :: "string \<Rightarrow> datetime option" where
  "sample_parser s =
     (if s = ''2024-01-01T10:00:00'' then Some (Naive 63839700000000000)
      else if s = ''2024-01-02T09:30:00'' then Some (Naive 63839784600000000)
      else if s = ''2024-01-01T10:00:00+01:00'' then Some (Aware 63839696400000000)
      else None)"

definition sample_format :: "datetime \<Rightarrow> string" where
  "sample_format d =
     (if d = Naive 63839700000000000 then ''01.01.2024, 10:00:00 Uhr''
      else if d = Naive 63839784600000000 then ''02.01.2024, 09:30:00 Uhr''
      else if d = Aware 63839696400000000 then ''01.01.2024, 10:00:00 Uhr''
      else [])"

definition modem0_properties :: "(string \<times> pyval) list" where
  "modem0_properties =
     [(''Manufacturer'', DBusString ''QUALCOMM''),
      (''OwnNumbers'', DBusArray [DBusString ''+491700000000'']),
      (''State'', DBusInt32 8)]"

definition sample_env ::
  "(string \<times> pyval) list \<Rightarrow> (string \<times> pyval) list \<Rightarrow> (email \<Rightarrow> pyexc option) \<Rightarrow> env" where
  "sample_env d1 d2 outcome =
     \<lparr>managed_objects = Some [DBusObjectPath modem0],
      get_all = (\<lambda>p i.
        if p = modem0 \<and> i = ''org.freedesktop.ModemManager1.Modem'' then Some modem0_properties
        else if p = modem0 \<and> i = ''org.freedesktop.ModemManager1.Modem.Messaging''
          then Some [(''Messages'', DBusArray [DBusObjectPath sms1, DBusObjectPath sms2])]
        else if p = sms1 \<and> i = ''org.freedesktop.ModemManager1.Sms'' then Some d1
        else if p = sms2 \<and> i = ''org.freedesktop.ModemManager1.Sms'' then Some d2
        else None),
      bus_delete = (\<lambda>m p. None),
      smtp = outcome,
      fromisoformat = sample_parser,
      strftime = sample_format,
      parseaddr = (\<lambda>a. ([], a))\<rparr>"

definition sample_config :: "bool \<Rightarrow> config" where
  "sample_config d =
     \<lparr>mail_from = ''gateway@example.org'',
      mail_to = [(''Admin'', ''admin@example.org'')],
      known_senders = (\<lambda>k. None),
      delete_after_sending = d\<rparr>"

text \<open>Message dictionaries: received with a naive time stamp, received a day later,
  sent, received with an offset in the time stamp, received with no time stamp.\<close>

definition msg_received :: "(string \<times> pyval) list" where
  "msg_received =
     [(''Number'', DBusString ''+491701234567''), (''Text'', DBusString ''Hi''),
      (''State'', DBusInt32 3), (''Timestamp'', DBusString ''2024-01-01T10:00:00'')]"

definition msg_received_later :: "(string \<times> pyval) list" where
  "msg_received_later =
     [(''Number'', DBusString ''+491707654321''), (''Text'', DBusString ''Ho''),
      (''State'', DBusInt32 3), (''Timestamp'', DBusString ''2024-01-02T09:30:00'')]"

definition msg_sent :: "(string \<times> pyval) list" where
  "msg_sent =
     [(''Number'', DBusString ''+491707654321''), (''Text'', DBusString ''Ok''),
      (''State'', DBusInt32 5), (''Timestamp'', DBusString ''2024-01-02T09:30:00'')]"

definition msg_received_offset :: "(string \<times> pyval) list" where
  "msg_received_offset =
     [(''Number'', DBusString ''+491701234567''), (''Text'', DBusString ''Hi''),
      (''State'', DBusInt32 3), (''Timestamp'', DBusString ''2024-01-01T10:00:00+01:00'')]"

definition msg_received_no_stamp :: "(string \<times> pyval) list" where
  "msg_received_no_stamp =
     [(''Number'', DBusString ''+491707654321''), (''Text'', DBusString ''Ho''),
      (''State'', DBusInt32 3)]"

definition sample_manager :: modem_manager where
  "sample_manager = \<lparr>modems = [modem0]\<rparr>"

definition sample_messaging :: dbus_interface where
  "sample_messaging =
     \<lparr>obj_path = modem0,
      iface_name = ''org.freedesktop.ModemManager1.Modem.Messaging'',
      properties = Some [(''Messages'', DBusArray [DBusObjectPath sms1, DBusObjectPath sms2])]\<rparr>"

text \<open>The emails composed for the two received messages.\<close>

definition mail_received :: email where
  "mail_received =
     \<lparr>from_name = [], from_email = ''gateway@example.org'', from_domain = ''example.org'',
      to_addrs = [(''Admin'', ''admin@example.org'')],
      subject = [Lit ''New SMS from '', Fmt (PyStr ''+491701234567'')],
      body = [Lit ''From: '', Fmt (PyStr ''+491701234567''),
              Lit ''\<newline>Date: 01.01.2024, 10:00:00 Uhr\<newline>\<newline>'', Fmt (PyStr ''Hi'')]\<rparr>"

definition mail_received_later :: email where
  "mail_received_later =
     \<lparr>from_name = [], from_email = ''gateway@example.org'', from_domain = ''example.org'',
      to_addrs = [(''Admin'', ''admin@example.org'')],
      subject = [Lit ''New SMS from '', Fmt (PyStr ''+491707654321'')],
      body = [Lit ''From: '', Fmt (PyStr ''+491707654321''),
              Lit ''\<newline>Date: 02.01.2024, 09:30:00 Uhr\<newline>\<newline>'', Fmt (PyStr ''Ho'')]\<rparr>"

definition sample_modem0 :: dbus_interface where
  "sample_modem0 =
     \<lparr>obj_path = modem0, iface_name = ''org.freedesktop.ModemManager1.Modem'',
      properties = Some modem0_properties\<rparr>"

definition sample_sms :: "string \<Rightarrow> (string \<times> pyval) list \<Rightarrow> dbus_interface" where
  "sample_sms p d =
     \<lparr>obj_path = p, iface_name = ''org.freedesktop.ModemManager1.Sms'', properties = Some d\<rparr>"

section \<open>Normalisation of wire values\<close>

lemma builtin_type_cast: "builtin (type_cast v) = builtin v"
  by (induction v rule: type_cast.induct) simp_all

lemma type_cast_idem: "type_cast (type_cast v) = type_cast v"
  by (induction v rule: type_cast.induct) simp_all

section \<open>Splitting and decimal numerals\<close>

lemma split_sep_nonempty: "split_sep c s \<noteq> []"
  by (induction s) (auto split: list.splits)

lemma split_sep_no_sep: "c \<notin> set t \<Longrightarrow> split_sep c t = [t]"
  by (induction t) auto

lemma split_sep_snoc:
  "c \<notin> set t \<Longrightarrow> \<exists>ws. ws \<noteq> [] \<and> split_sep c (s @ c # t) = ws @ [t]"
proof (induction s)
  case Nil
  then have "split_sep c ([] @ c # t) = [[]] @ [t]"
    by (simp add: split_sep_no_sep)
  then show ?case by blast
next
  case (Cons x s)
  then obtain ws where ws: "ws \<noteq> []" "split_sep c (s @ c # t) = ws @ [t]"
    by blast
  then obtain w ws' where w: "ws = w # ws'"
    by (cases ws) auto
  show ?case
  proof (cases "x = c")
    case True
    then have "split_sep c ((x # s) @ c # t) = ([] # ws) @ [t]"
      using ws by simp
    then show ?thesis by blast
  next
    case False
    then have "split_sep c ((x # s) @ c # t) = ((x # w) # ws') @ [t]"
      using ws w by simp
    then show ?thesis by blast
  qed
qed

lemma last_split_sep: "c \<notin> set t \<Longrightarrow> last (split_sep c (s @ c # t)) = t"
  using split_sep_snoc [of c t s] by auto

lemma is_digit_digit_char: "d < 10 \<Longrightarrow> is_digit (digit_char d)"
  by (simp add: is_digit_def digit_char_def)

lemma digit_val_digit_char: "d < 10 \<Longrightarrow> digit_val (digit_char d) = d"
  by (simp add: digit_val_def digit_char_def)

lemma decimal_nat_digits: "list_all is_digit (decimal_nat n)"
proof (induction n rule: decimal_nat.induct)
  case (1 n)
  show ?case
  proof (cases "n < 10")
    case True
    then show ?thesis by (subst decimal_nat.simps) (simp add: is_digit_digit_char)
  next
    case False
    with 1 show ?thesis by (subst decimal_nat.simps) (simp add: is_digit_digit_char)
  qed
qed

lemma decimal_nat_nonempty: "decimal_nat n \<noteq> []"
  by (subst decimal_nat.simps) simp

lemma parse_rest_digits:
  "list_all is_digit ds \<Longrightarrow> parse_rest a ds = Some (foldl (\<lambda>a c. 10 * a + digit_val c) a ds)"
  by (induction a ds rule: parse_rest.induct) auto

lemma foldl_decimal_nat:
  "foldl (\<lambda>a c. 10 * a + digit_val c) a (decimal_nat n) = a * 10 ^ length (decimal_nat n) + n"
proof (induction n arbitrary: a rule: decimal_nat.induct)
  case (1 n)
  show ?case
  proof (cases "n < 10")
    case True
    then show ?thesis by (subst (1 2) decimal_nat.simps) (simp add: digit_val_digit_char)
  next
    case False
    then have "foldl (\<lambda>a c. 10 * a + digit_val c) a (decimal_nat n)
        = 10 * (foldl (\<lambda>a c. 10 * a + digit_val c) a (decimal_nat (n div 10))) + n mod 10"
      by (subst decimal_nat.simps) (simp add: digit_val_digit_char)
    also have "\<dots> = 10 * (a * 10 ^ length (decimal_nat (n div 10)) + n div 10) + n mod 10"
      using 1 False by simp
    also have "\<dots> = a * 10 ^ length (decimal_nat n) + n"
      using False by (subst (2) decimal_nat.simps) (simp add: algebra_simps)
    finally show ?thesis .
  qed
qed

lemma parse_digits_decimal_nat: "parse_digits (decimal_nat n) = Some n"
proof -
  obtain c cs where eq: "decimal_nat n = c # cs"
    using decimal_nat_nonempty by (cases "decimal_nat n") auto
  have dig: "is_digit c" "list_all is_digit cs"
    using decimal_nat_digits [of n] eq by simp_all
  have "foldl (\<lambda>a c. 10 * a + digit_val c) 0 (c # cs) = n"
    using foldl_decimal_nat [of 0 n] eq by simp
  then show ?thesis
    using dig by (simp add: parse_digits_def eq parse_rest_digits)
qed

lemma digit_not_space: "is_digit c \<Longrightarrow> \<not> is_space c"
  by (auto simp: is_digit_def is_space_def Let_def)

lemma digit_not_sign: "is_digit c \<Longrightarrow> c \<noteq> CHR ''-'' \<and> c \<noteq> CHR ''+'' \<and> c \<noteq> CHR ''/''"
  by (auto simp: is_digit_def)

lemma minus_not_space: "\<not> is_space CHR ''-''"
  by (simp add: is_space_def)

lemma dropWhile_space_digits:
  "ds \<noteq> [] \<Longrightarrow> list_all is_digit ds \<Longrightarrow> dropWhile is_space ds = ds"
  by (cases ds) (auto simp: digit_not_space)

lemma strip_right_digits:
  "ds \<noteq> [] \<Longrightarrow> list_all is_digit ds \<Longrightarrow> rev (dropWhile is_space (rev ds)) = ds"
proof -
  assume ne: "ds \<noteq> []" and dg: "list_all is_digit ds"
  then have "rev ds \<noteq> []" "list_all is_digit (rev ds)"
    by (simp_all add: list_all_iff)
  then have "dropWhile is_space (rev ds) = rev ds"
    by (rule dropWhile_space_digits)
  then show ?thesis by simp
qed

lemma filter_digits: "list_all is_digit ds \<Longrightarrow> filter is_digit ds = ds"
  by (induction ds) simp_all

lemma int_of_str_decimal:
  assumes "fits i"
  shows "int_of_str (decimal i) = Some i"
proof (cases "i < 0")
  case True
  let ?ds = "decimal_nat (nat (- i))"
  have ne: "?ds \<noteq> []" and dg: "list_all is_digit ?ds"
    by (rule decimal_nat_nonempty, rule decimal_nat_digits)
  have len: "\<not> max_str_digits < length ?ds"
    using assms True by (simp add: fits_def abs_if)
  have "int_of_str (CHR ''-'' # ?ds) = Some (- int (nat (- i)))"
    unfolding int_of_str_def
    using len
    by (simp add: minus_not_space strip_right_digits [OF ne dg] parse_digits_decimal_nat
        filter_digits [OF dg])
  with True show ?thesis by (simp add: decimal_def)
next
  case False
  let ?ds = "decimal_nat (nat i)"
  have ne: "?ds \<noteq> []" and dg: "list_all is_digit ?ds"
    by (rule decimal_nat_nonempty, rule decimal_nat_digits)
  have hd: "is_digit (hd ?ds)"
    using ne dg by (cases ?ds) auto
  have len: "\<not> max_str_digits < length ?ds"
    using assms False by (simp add: fits_def abs_if)
  have "int_of_str ?ds = Some (int (nat i))"
    unfolding int_of_str_def
    using digit_not_sign [OF hd] len
    by (simp add: dropWhile_space_digits [OF ne dg] strip_right_digits [OF ne dg]
        parse_digits_decimal_nat filter_digits [OF dg])
  with False show ?thesis by (simp add: decimal_def)
qed






lemma fits_small: "\<bar>i\<bar> < 10 \<Longrightarrow> fits i"
proof -
  assume "\<bar>i\<bar> < 10"
  then have "nat \<bar>i\<bar> < 10" by linarith
  then have "length (decimal_nat (nat \<bar>i\<bar>)) = 1"
    by (subst decimal_nat.simps) simp
  then show ?thesis by (simp add: fits_def max_str_digits_def)
qed

lemma format_d_fits: "fits i \<Longrightarrow> format_d i = Inr (decimal i)"
  by (simp add: format_d_def fits_def)

lemma format_d_too_long: "\<not> fits i \<Longrightarrow> format_d i = Inl ValueError"
  by (simp add: format_d_def fits_def)

lemma decimal_no_slash: "CHR ''/'' \<notin> set (decimal i)"
proof -
  have "\<And>n. CHR ''/'' \<notin> set (decimal_nat n)"
    using decimal_nat_digits digit_not_sign by (auto simp: list_all_iff)
  then show ?thesis by (simp add: decimal_def)
qed

lemma io_bind_return [simp]: "io_bind (io_return x) f = f x"
  by (simp add: io_bind_def io_return_def split: prod.splits)

lemma io_bind_lift_Inr [simp]: "io_bind (io_lift (Inr x)) f = f x"
  by (simp add: io_bind_def io_lift_def split: prod.splits)

lemma io_bind_lift_Inl [simp]: "io_bind (io_lift (Inl e)) f = ([], Inl e)"
  by (simp add: io_bind_def io_lift_def)

lemma io_bind_raise [simp]: "io_bind (io_raise e) f = ([], Inl e)"
  by (simp add: io_bind_def io_raise_def)

lemma io_bind_emit [simp]: "io_bind (io_emit e) f = (e # fst (f ()), snd (f ()))"
  by (simp add: io_bind_def io_emit_def split: prod.splits)

lemma io_bind_pair_Inr [simp]: "io_bind (es, Inr x) f = (es @ fst (f x), snd (f x))"
  by (simp add: io_bind_def split: prod.splits)

lemma io_bind_pair_Inl [simp]: "io_bind (es, Inl e) f = (es, Inl e)"
  by (simp add: io_bind_def)

lemma io_bind_eq_Inr:
  "io_bind m f = (es, Inr y) \<longleftrightarrow>
     (\<exists>es1 x es2. m = (es1, Inr x) \<and> f x = (es2, Inr y) \<and> es = es1 @ es2)"
  by (cases m; cases "snd m") (auto simp: io_bind_def split: prod.splits)

lemma object_id_total: "\<exists>objid. object_id obj path = Inr objid"
  by (simp add: object_id_def index_last_def split_sep_nonempty)

lemma py_int_errors: "py_int v = Inl e \<Longrightarrow> e = ValueError \<or> e = TypeError"
  by (auto simp: py_int_def split: pyval.splits option.splits)

lemma object_path_value:
  "object_id obj path = Inr objid \<Longrightarrow> py_int objid = Inr n \<Longrightarrow> fits n \<Longrightarrow>
   object_path obj path = ([], Inr (Some (objbasepath obj @ decimal n)))"
  by (simp add: object_path_def format_d_fits io_return_def)

lemma object_path_too_long:
  "object_id obj path = Inr objid \<Longrightarrow> py_int objid = Inr n \<Longrightarrow> \<not> fits n \<Longrightarrow>
   object_path obj path = ([Log ERROR ''Bad object ID provided: %s'' [Val objid]], Inr None)"
  by (simp add: object_path_def format_d_too_long io_return_def)

lemma object_path_bad_id:
  "object_id obj path = Inr objid \<Longrightarrow> py_int objid = Inl e \<Longrightarrow>
   object_path obj path = ([Log ERROR ''Bad object ID provided: %s'' [Val objid]], Inr None)"
  using py_int_errors [of objid e]
  by (auto simp: object_path_def io_return_def)

lemma object_path_cases:
  "(\<exists>n. fits n \<and> object_path obj path = ([], Inr (Some (objbasepath obj @ decimal n))))
   \<or> (\<exists>objid. object_path obj path = ([Log ERROR ''Bad object ID provided: %s'' [Val objid]], Inr None))"
proof -
  obtain objid where oid: "object_id obj path = Inr objid"
    using object_id_total by blast
  show ?thesis
  proof (cases "py_int objid")
    case (Inl e)
    from oid Inl show ?thesis by (blast dest: object_path_bad_id)
  next
    case (Inr n)
    show ?thesis
    proof (cases "fits n")
      case True
      with oid Inr show ?thesis by (blast dest: object_path_value)
    next
      case False
      with oid Inr show ?thesis by (blast dest: object_path_too_long)
    qed
  qed
qed

lemma object_path_returns: "\<exists>es r. object_path obj path = (es, Inr r)"
  using object_path_cases [of obj path] by auto

lemma object_path_number:
  "py_int path = Inr n \<Longrightarrow> fits n \<Longrightarrow>
   \<not> (is_str path \<and> sublist (objbasepath obj) (str_val path)) \<Longrightarrow>
   object_path obj path = ([], Inr (Some (objbasepath obj @ decimal n)))"
  by (rule object_path_value [of obj path path]) (auto simp: object_id_def)

lemma object_id_full_path:
  "object_id obj (PyStr (objbasepath obj @ decimal n)) = Inr (PyStr (decimal n))"
proof -
  have "sublist (objbasepath obj) (objbasepath obj @ decimal n)"
    by (rule prefix_imp_sublist) simp
  moreover have "last (split_sep CHR ''/'' (objbasepath obj @ decimal n)) = decimal n"
    using last_split_sep [OF decimal_no_slash, of "''/org/freedesktop/ModemManager1/'' @ obj" n]
    by (simp add: objbasepath_def)
  ultimately show ?thesis
    by (simp add: object_id_def index_last_def split_sep_nonempty)
qed

lemma object_path_full_path:
  "fits n \<Longrightarrow>
   object_path obj (PyStr (objbasepath obj @ decimal n))
     = ([], Inr (Some (objbasepath obj @ decimal n)))"
  by (rule object_path_value [OF object_id_full_path]) (simp_all add: py_int_def int_of_str_decimal)

lemma object_path_Some:
  "snd (object_path obj path) = Inr (Some p) \<Longrightarrow>
   object_path obj path = ([], Inr (Some p)) \<and> object_path obj (PyStr p) = ([], Inr (Some p))"
  using object_path_cases [of obj path] by (auto simp: object_path_full_path)

section \<open>Claims about the wire-value normalisation and the path codec\<close>

text \<open>
  Claim C9. \<open>type_cast\<close> is a total function of the values, with no branch that raises:
  \<open>None\<close> stays \<open>None\<close>; a \<open>dbus.String\<close> and a \<open>dbus.ObjectPath\<close> become a plain string; a
  \<open>dbus.Int32\<close> and a \<open>dbus.UInt32\<close> become a plain integer; a \<open>dbus.Array\<close> becomes the list
  of its elements, each normalised in turn and in the same order; every other value, of
  another wire type or already plain, is returned unchanged. The value under the wire
  class is kept, and normalising twice is normalising once.
\<close>

theorem type_cast_normalises:
  "type_cast PyNone = PyNone
   \<and> type_cast (DBusString s) = PyStr s
   \<and> type_cast (DBusObjectPath s) = PyStr s
   \<and> type_cast (DBusInt32 n) = PyInt n
   \<and> type_cast (DBusUInt32 n) = PyInt n
   \<and> type_cast (DBusArray xs) = PyList (map type_cast xs)
   \<and> type_cast (DBusInt k n) = DBusInt k n
   \<and> type_cast (DBusStruct xs) = DBusStruct xs
   \<and> type_cast (PyStr s) = PyStr s
   \<and> type_cast (PyInt n) = PyInt n
   \<and> type_cast (PyList xs) = PyList xs
   \<and> builtin (type_cast v) = builtin v
   \<and> type_cast (type_cast v) = type_cast v"
  by (simp add: builtin_type_cast type_cast_idem)





section \<open>Lookups by identifier\<close>

lemma object_path_no_fetch: "\<not> list_ex is_fetch (fst (object_path obj path))"
  using object_path_cases [of obj path] by auto

lemma get_properties_shape:
  "\<exists>es props. get_properties E p i = (GetAll p i # es, Inr props) \<and> \<not> list_ex is_fetch es"
  by (cases "get_all E p i") (simp_all add: get_properties_def io_return_def io_emit_def)


lemma new_interface_Some:
  "\<exists>es props. new_interface E (Some p) i
      = (es, Inr \<lparr>obj_path = p, iface_name = i, properties = props\<rparr>)"
  using get_properties_shape [of E p i]
  by (auto simp: new_interface_def io_return_def)

lemma MMModem_at_path:
  assumes "snd (object_path ''Modem'' modem) = Inr (Some p)"
  shows "\<exists>es m. MMModem E (PyStr p) = (es, Inr m) \<and> obj_path m = p"
  using object_path_Some [OF assms] new_interface_Some [of E p]
  by (fastforce simp: MMModem_def)



lemma get_modem_found:
  assumes "snd (object_path ''Modem'' modem) = Inr (Some p)" and "p \<in> set (modems self)"
  shows "\<exists>es m. get_modem E self modem = (es, Inr (Some m)) \<and> obj_path m = p"
proof -
  obtain es m where m: "MMModem E (PyStr p) = (es, Inr m)" "obj_path m = p"
    using MMModem_at_path [OF assms(1)] by blast
  have "object_path ''Modem'' modem = ([], Inr (Some p))"
    using object_path_Some [OF assms(1)] by simp
  then show ?thesis
    using m assms(2) by (simp add: get_modem_def path_val_def io_return_def)
qed

lemma get_modem_absent:
  assumes "snd (object_path ''Modem'' modem) = Inr mpath"
    and "\<forall>p. mpath = Some p \<longrightarrow> p \<notin> set (modems self)"
  shows "get_modem E self modem = (fst (object_path ''Modem'' modem), Inr None)"
proof -
  obtain es where es: "object_path ''Modem'' modem = (es, Inr mpath)"
    using assms(1) by (cases "object_path ''Modem'' modem") auto
  moreover have "\<not> (case mpath of None \<Rightarrow> False | Some p \<Rightarrow> p \<in> set (modems self))"
    using assms(2) by (cases mpath) auto
  ultimately show ?thesis
    by (simp add: get_modem_def io_return_def)
qed


lemma get_modem_fetch_only_found:
  "(\<exists>m. snd (get_modem E self modem) = Inr (Some m)) \<or> \<not> list_ex is_fetch (fst (get_modem E self modem))"
proof -
  obtain es mpath where op: "object_path ''Modem'' modem = (es, Inr mpath)"
    using object_path_returns by blast
  show ?thesis
  proof (cases "\<exists>p. mpath = Some p \<and> p \<in> set (modems self)")
    case True
    then obtain p where p: "mpath = Some p" "p \<in> set (modems self)" by blast
    then have "snd (object_path ''Modem'' modem) = Inr (Some p)" using op by simp
    from get_modem_found [OF this p(2), of E] show ?thesis by auto
  next
    case False
    then have "get_modem E self modem = (fst (object_path ''Modem'' modem), Inr None)"
      using op by (intro get_modem_absent [of _ mpath]) auto
    then show ?thesis using object_path_no_fetch [of "''Modem''" modem] by simp
  qed
qed







section \<open>The received messages\<close>

lemma dt_less_comparable:
  "is_naive a = is_naive b \<Longrightarrow> dt_less a b = Inr (key_ord a < key_ord b)"
  by (cases a; cases b) simp_all

lemma dt_less_mixed:
  "is_naive a \<noteq> is_naive b \<Longrightarrow> dt_less a b = Inl TypeError"
  by (cases a; cases b) simp_all

lemma insert_by_key_mset:
  "insert_by_key x ys = Inr r \<Longrightarrow> mset r = add_mset x (mset ys)"
  by (induction ys arbitrary: r) (auto split: sum.splits bool.splits if_splits)

lemma stable_sort_mset: "stable_sort xs = Inr r \<Longrightarrow> mset r = mset xs"
  by (induction xs arbitrary: r) (auto split: sum.splits dest: insert_by_key_mset)

lemma list_sort_mset: "list_sort rv kxs = Inr r \<Longrightarrow> mset r = mset (map snd kxs)"
proof (cases rv)
  case True
  assume "list_sort rv kxs = Inr r"
  with True obtain s where s: "stable_sort (rev kxs) = Inr s" "r = map snd (rev s)"
    by (auto simp: list_sort_def split: sum.splits)
  from stable_sort_mset [OF s(1)] have "mset (map snd (rev s)) = mset (map snd kxs)"
    by (metis mset_map mset_rev)
  with s show ?thesis by simp
next
  case False
  assume "list_sort rv kxs = Inr r"
  with False obtain s where s: "stable_sort kxs = Inr s" "r = map snd s"
    by (auto simp: list_sort_def split: sum.splits)
  from stable_sort_mset [OF s(1)] s(2) show ?thesis
    by (metis mset_map)
qed

lemma datetime_key_snd: "datetime_key E x = (es, Inr kx) \<Longrightarrow> snd kx = x"
  by (auto simp: datetime_key_def io_bind_eq_Inr io_return_def split: option.splits)

lemma io_map_datetime_key:
  "io_map (datetime_key E) xs = (es, Inr keyed) \<Longrightarrow> map snd keyed = xs"
proof (induction xs arbitrary: es keyed)
  case Nil
  then show ?case by (simp add: io_return_def)
next
  case (Cons x xs)
  then show ?case
    by (auto simp: io_bind_eq_Inr io_return_def dest: datetime_key_snd)
qed

lemma received_result:
  assumes "received E self rv = (es, Inr ms)"
  shows "\<exists>paths es' constructed.
           py_iter (Messages self) = Inr paths
         \<and> io_map (MMModemSms E) paths = (es', Inr constructed)
         \<and> mset ms = mset (filter is_received constructed)"
proof -
  from assms obtain paths es1 constructed es2 keyed
    where p: "py_iter (Messages self) = Inr paths"
      and c: "io_map (MMModemSms E) paths = (es1, Inr constructed)"
      and k: "io_map (datetime_key E) (filter is_received constructed) = (es2, Inr keyed)"
      and s: "list_sort rv keyed = Inr ms"
    by (auto simp: received_def io_bind_eq_Inr io_lift_def)
  from list_sort_mset [OF s] io_map_datetime_key [OF k]
  have "mset ms = mset (filter is_received constructed)" by simp
  with p c show ?thesis by blast
qed

lemma is_received_state:
  "is_received m \<Longrightarrow> py_eq (State m) (PyInt k) \<longleftrightarrow> k = MM_SMS_STATE_RECEIVED"
  by (auto simp: is_received_def py_eq_def)

text \<open>
  Claim C1. When \<open>get_sms\<close> without an identifier returns, it returns a list that holds
  exactly the messages constructed from the listed paths whose state equals
  \<open>MM_SMS_STATE_RECEIVED\<close>, each as often as it was constructed; no message of the result
  is in one of the five other states.
\<close>

theorem received_only_received:
  assumes "get_sms E self PyNone rv = (es, Inr r)"
  shows "\<exists>paths es' constructed ms.
           py_iter (Messages self) = Inr paths
         \<and> io_map (MMModemSms E) paths = (es', Inr constructed)
         \<and> r = Many ms
         \<and> mset ms = mset (filter is_received constructed)
         \<and> (\<forall>m \<in> set ms. py_eq (State m) (PyInt MM_SMS_STATE_RECEIVED)
               \<and> \<not> py_eq (State m) (PyInt MM_SMS_STATE_UNKNOWN)
               \<and> \<not> py_eq (State m) (PyInt MM_SMS_STATE_STORED)
               \<and> \<not> py_eq (State m) (PyInt MM_SMS_STATE_RECEIVING)
               \<and> \<not> py_eq (State m) (PyInt MM_SMS_STATE_SENDING)
               \<and> \<not> py_eq (State m) (PyInt MM_SMS_STATE_SENT))"
proof -
  from assms obtain es0 ms where ms: "received E self rv = (es0, Inr ms)" "r = Many ms"
    by (auto simp: get_sms_def io_bind_eq_Inr io_return_def)
  from received_result [OF ms(1)] obtain paths es' constructed
    where p: "py_iter (Messages self) = Inr paths"
      and c: "io_map (MMModemSms E) paths = (es', Inr constructed)"
      and m: "mset ms = mset (filter is_received constructed)"
    by blast
  have "set ms = set (filter is_received constructed)"
    using m by (rule mset_eq_setD)
  then have "\<forall>m \<in> set ms. is_received m" by simp
  then have "\<forall>m \<in> set ms. py_eq (State m) (PyInt MM_SMS_STATE_RECEIVED)
               \<and> \<not> py_eq (State m) (PyInt MM_SMS_STATE_UNKNOWN)
               \<and> \<not> py_eq (State m) (PyInt MM_SMS_STATE_STORED)
               \<and> \<not> py_eq (State m) (PyInt MM_SMS_STATE_RECEIVING)
               \<and> \<not> py_eq (State m) (PyInt MM_SMS_STATE_SENDING)
               \<and> \<not> py_eq (State m) (PyInt MM_SMS_STATE_SENT)"
    by (simp add: is_received_state MM_SMS_STATE_RECEIVED_def MM_SMS_STATE_UNKNOWN_def
        MM_SMS_STATE_STORED_def MM_SMS_STATE_RECEIVING_def MM_SMS_STATE_SENDING_def
        MM_SMS_STATE_SENT_def)
  with p c m ms(2) show ?thesis by blast
qed

section \<open>The sample bus, evaluated\<close>

lemma decimal_small:
  "decimal 0 = ''0''" "decimal 1 = ''1''" "decimal 2 = ''2''" "decimal 3 = ''3''"
  by code_simp+

lemma sample_paths:
  "object_path ''Modem'' (PyStr modem0) = ([], Inr (Some modem0))"
  "object_path ''SMS'' (PyStr sms1) = ([], Inr (Some sms1))"
  "object_path ''SMS'' (PyStr sms2) = ([], Inr (Some sms2))"
  using object_path_full_path [of 0 "''Modem''"] object_path_full_path [of 1 "''SMS''"]
    object_path_full_path [of 2 "''SMS''"] fits_small [of 0] fits_small [of 1] fits_small [of 2]
  by (simp_all add: objbasepath_def modem0_def sms1_def sms2_def decimal_small)

lemma sample_get_all:
  "get_all (sample_env d1 d2 s) modem0 ''org.freedesktop.ModemManager1.Modem'' = Some modem0_properties"
  "get_all (sample_env d1 d2 s) modem0 ''org.freedesktop.ModemManager1.Modem.Messaging''
     = Some [(''Messages'', DBusArray [DBusObjectPath sms1, DBusObjectPath sms2])]"
  "get_all (sample_env d1 d2 s) sms1 ''org.freedesktop.ModemManager1.Sms'' = Some d1"
  "get_all (sample_env d1 d2 s) sms2 ''org.freedesktop.ModemManager1.Sms'' = Some d2"
  by (simp_all add: sample_env_def modem0_def sms1_def sms2_def)

lemma sample_sms:
  "MMModemSms (sample_env d1 d2 s) (PyStr sms1)
     = ([GetAll sms1 ''org.freedesktop.ModemManager1.Sms''],
        Inr \<lparr>obj_path = sms1, iface_name = ''org.freedesktop.ModemManager1.Sms'', properties = Some d1\<rparr>)"
  "MMModemSms (sample_env d1 d2 s) (PyStr sms2)
     = ([GetAll sms2 ''org.freedesktop.ModemManager1.Sms''],
        Inr \<lparr>obj_path = sms2, iface_name = ''org.freedesktop.ModemManager1.Sms'', properties = Some d2\<rparr>)"
  by (simp_all add: MMModemSms_def sample_paths new_interface_def get_properties_def
      sample_get_all io_return_def)

lemma sample_modem:
  "MMModem (sample_env d1 d2 s) (PyStr modem0)
     = ([GetAll modem0 ''org.freedesktop.ModemManager1.Modem''],
        Inr \<lparr>obj_path = modem0, iface_name = ''org.freedesktop.ModemManager1.Modem'',
             properties = Some modem0_properties\<rparr>)"
  by (simp add: MMModem_def sample_paths new_interface_def get_properties_def
      sample_get_all io_return_def)

lemma sample_messages:
  "py_iter (Messages sample_messaging) = Inr [PyStr sms1, PyStr sms2]"
  by (simp add: Messages_def get_property_def sample_messaging_def)

lemma sample_constructed:
  "io_map (MMModemSms (sample_env d1 d2 s)) [PyStr sms1, PyStr sms2]
     = ([GetAll sms1 ''org.freedesktop.ModemManager1.Sms'', GetAll sms2 ''org.freedesktop.ModemManager1.Sms''],
        Inr [\<lparr>obj_path = sms1, iface_name = ''org.freedesktop.ModemManager1.Sms'', properties = Some d1\<rparr>,
             \<lparr>obj_path = sms2, iface_name = ''org.freedesktop.ModemManager1.Sms'', properties = Some d2\<rparr>])"
  by (simp add: sample_sms io_return_def)

lemma sample_states:
  "is_received \<lparr>obj_path = p, iface_name = i, properties = Some msg_received\<rparr>"
  "is_received \<lparr>obj_path = p, iface_name = i, properties = Some msg_received_later\<rparr>"
  "is_received \<lparr>obj_path = p, iface_name = i, properties = Some msg_received_offset\<rparr>"
  "is_received \<lparr>obj_path = p, iface_name = i, properties = Some msg_received_no_stamp\<rparr>"
  "\<not> is_received \<lparr>obj_path = p, iface_name = i, properties = Some msg_sent\<rparr>"
  by (simp_all add: is_received_def State_def get_property_def py_eq_def MM_SMS_STATE_RECEIVED_def
      msg_received_def msg_received_later_def msg_received_offset_def msg_received_no_stamp_def
      msg_sent_def)

lemma sample_datetimes:
  "get_datetime (sample_env d1 d2 s) \<lparr>obj_path = p, iface_name = i, properties = Some msg_received\<rparr>
     = ([], Inr (Some (Naive 63839700000000000)))"
  "get_datetime (sample_env d1 d2 s) \<lparr>obj_path = p, iface_name = i, properties = Some msg_received_later\<rparr>
     = ([], Inr (Some (Naive 63839784600000000)))"
  "get_datetime (sample_env d1 d2 s) \<lparr>obj_path = p, iface_name = i, properties = Some msg_received_offset\<rparr>
     = ([], Inr (Some (Aware 63839696400000000)))"
  "get_datetime (sample_env d1 d2 s) \<lparr>obj_path = p, iface_name = i, properties = Some msg_received_no_stamp\<rparr>
     = ([], Inr None)"
  by (simp_all add: get_datetime_def Timestamp_def get_property_def sample_env_def sample_parser_def
      io_return_def msg_received_def msg_received_later_def msg_received_offset_def
      msg_received_no_stamp_def)

lemma sample_received_one:
  "get_sms (sample_env msg_received msg_sent s) sample_messaging PyNone rv
     = ([GetAll sms1 ''org.freedesktop.ModemManager1.Sms'', GetAll sms2 ''org.freedesktop.ModemManager1.Sms''],
        Inr (Many [\<lparr>obj_path = sms1, iface_name = ''org.freedesktop.ModemManager1.Sms'',
                     properties = Some msg_received\<rparr>]))"
  by (simp add: get_sms_def received_def sample_messages sample_sms sample_states
      datetime_key_def sample_datetimes list_sort_def io_return_def io_lift_def)

lemma sample_received_two:
  "get_sms (sample_env msg_received msg_received_later s) sample_messaging PyNone True
     = ([GetAll sms1 ''org.freedesktop.ModemManager1.Sms'', GetAll sms2 ''org.freedesktop.ModemManager1.Sms''],
        Inr (Many [\<lparr>obj_path = sms2, iface_name = ''org.freedesktop.ModemManager1.Sms'',
                     properties = Some msg_received_later\<rparr>,
                   \<lparr>obj_path = sms1, iface_name = ''org.freedesktop.ModemManager1.Sms'',
                     properties = Some msg_received\<rparr>]))"
  by (simp add: get_sms_def received_def sample_messages sample_sms sample_states
      datetime_key_def sample_datetimes list_sort_def io_return_def io_lift_def)

lemma sample_received_mixed:
  "get_sms (sample_env msg_received_offset msg_received_no_stamp s) sample_messaging PyNone rv
     = ([GetAll sms1 ''org.freedesktop.ModemManager1.Sms'', GetAll sms2 ''org.freedesktop.ModemManager1.Sms''],
        Inl TypeError)"
  by (simp add: get_sms_def received_def sample_messages sample_sms sample_states
      datetime_key_def sample_datetimes list_sort_def io_return_def io_lift_def datetime_min_def)

section \<open>The order of the received messages\<close>

lemma insert_by_key_comparable:
  assumes "list_all (\<lambda>y. is_naive (fst y) = is_naive (fst x)) ys"
  shows "insert_by_key x ys = Inr (insort_key (\<lambda>y. key_ord (fst y)) x ys)"
  using assms
proof (induction ys)
  case Nil
  then show ?case by simp
next
  case (Cons y ys)
  then have "dt_less (fst y) (fst x) = Inr (key_ord (fst y) < key_ord (fst x))"
    by (simp add: dt_less_comparable)
  with Cons show ?case by (auto simp: not_less)
qed

lemma insert_by_key_mixed:
  assumes "ys \<noteq> []" and "list_all (\<lambda>y. is_naive (fst y) \<noteq> is_naive (fst x)) ys"
  shows "insert_by_key x ys = Inl TypeError"
  using assms by (cases ys) (simp_all add: dt_less_mixed)

lemma stable_sort_same_kind:
  assumes "list_all (\<lambda>y. is_naive (fst y) = b) xs"
  shows "stable_sort xs = Inr (sort_key (\<lambda>y. key_ord (fst y)) xs)"
  using assms
proof (induction xs)
  case Nil
  then show ?case by simp
next
  case (Cons x xs)
  then have ih: "stable_sort xs = Inr (sort_key (\<lambda>y. key_ord (fst y)) xs)" and bx: "is_naive (fst x) = b"
    and all: "list_all (\<lambda>y. is_naive (fst y) = b) xs"
    by simp_all
  have "list_all (\<lambda>y. is_naive (fst y) = is_naive (fst x)) (sort_key (\<lambda>y. key_ord (fst y)) xs)"
    using all bx by (simp add: list_all_iff)
  then show ?case
    using ih by (simp add: insert_by_key_comparable)
qed

lemma comparable_same_kind:
  "comparable (map fst xs) \<longleftrightarrow> (\<exists>b. list_all (\<lambda>y. is_naive (fst y) = b) xs)"
  by (auto simp: comparable_def list_all_iff)

lemma stable_sort_comparable:
  "comparable (map fst xs) \<Longrightarrow> stable_sort xs = Inr (sort_key (\<lambda>y. key_ord (fst y)) xs)"
  using stable_sort_same_kind by (auto simp: comparable_same_kind)

lemma stable_sort_mixed:
  "\<not> comparable (map fst xs) \<Longrightarrow> stable_sort xs = Inl TypeError"
proof (induction xs)
  case Nil
  then show ?case by (simp add: comparable_def)
next
  case (Cons x xs)
  show ?case
  proof (cases "comparable (map fst xs)")
    case False
    with Cons.IH show ?thesis by simp
  next
    case True
    then obtain b where b: "list_all (\<lambda>y. is_naive (fst y) = b) xs"
      by (auto simp: comparable_same_kind)
    have xb: "is_naive (fst x) \<noteq> b"
    proof
      assume "is_naive (fst x) = b"
      with b have "list_all (\<lambda>y. is_naive (fst y) = b) (x # xs)" by simp
      then have "comparable (map fst (x # xs))"
        unfolding comparable_same_kind by blast
      with Cons.prems show False by contradiction
    qed
    have ne: "xs \<noteq> []"
      using Cons.prems by (auto simp: comparable_def)
    let ?s = "sort_key (\<lambda>y. key_ord (fst y)) xs"
    have "?s \<noteq> []" using ne by (metis length_sort length_0_conv)
    moreover have "list_all (\<lambda>y. is_naive (fst y) \<noteq> is_naive (fst x)) ?s"
      using b xb by (auto simp: list_all_iff)
    ultimately have "insert_by_key x ?s = Inl TypeError"
      by (rule insert_by_key_mixed)
    then show ?thesis
      using stable_sort_same_kind [OF b] by simp
  qed
qed

lemma comparable_rev: "comparable (map fst (rev xs)) = comparable (map fst xs)"
  by (simp add: comparable_def list_all_iff)

lemma list_sort_eq:
  "list_sort rv kxs =
     (if comparable (map fst kxs)
      then Inr (map snd (if rv then rev (sort_key (\<lambda>y. key_ord (fst y)) (rev kxs))
                         else sort_key (\<lambda>y. key_ord (fst y)) kxs))
      else Inl TypeError)"
  using stable_sort_comparable [of kxs] stable_sort_comparable [of "rev kxs"]
    stable_sort_mixed [of kxs] stable_sort_mixed [of "rev kxs"] comparable_rev [of kxs]
  by (auto simp: list_sort_def)

lemma stable_reverse_sort:
  "filter (\<lambda>y. f y = c) (rev (sort_key f (rev xs))) = filter (\<lambda>y. f y = c) xs"
proof -
  have "filter (\<lambda>y. f y = c) (rev (sort_key f (rev xs))) = rev (filter (\<lambda>y. f y = c) (sort_key f (rev xs)))"
    by (simp add: rev_filter)
  also have "\<dots> = rev (filter (\<lambda>y. f y = c) (rev xs))"
    by (simp add: sort_key_stable)
  finally show ?thesis by (simp add: rev_filter)
qed

lemma stable_by_key:
  "filter (\<lambda>y. key_ord (fst y) = c) (sort_key (\<lambda>y. key_ord (fst y)) xs)
     = filter (\<lambda>y. key_ord (fst y) = c) xs"
  "filter (\<lambda>y. key_ord (fst y) = c) (rev (sort_key (\<lambda>y. key_ord (fst y)) (rev xs)))
     = filter (\<lambda>y. key_ord (fst y) = c) xs"
  using sort_key_stable [of "\<lambda>y. key_ord (fst y)" c xs]
    stable_reverse_sort [of "\<lambda>y. key_ord (fst y)" c xs]
  by simp_all

text \<open>What C2 asks of the order, on the lists whose keys can be compared.\<close>

lemma list_sort_sorted_stable:
  assumes "comparable (map fst kxs)"
  shows "\<exists>r. list_sort rv kxs = Inr (map snd r)
           \<and> mset r = mset kxs
           \<and> (if rv then sorted (rev (map (\<lambda>y. key_ord (fst y)) r))
               else sorted (map (\<lambda>y. key_ord (fst y)) r))
           \<and> (\<forall>c. filter (\<lambda>y. key_ord (fst y) = c) r = filter (\<lambda>y. key_ord (fst y) = c) kxs)"
proof (cases rv)
  case True
  let ?r = "rev (sort_key (\<lambda>y. key_ord (fst y)) (rev kxs))"
  have "list_sort rv kxs = Inr (map snd ?r)"
    using assms True by (simp add: list_sort_eq)
  moreover have "mset ?r = mset kxs" by simp
  moreover have "sorted (rev (map (\<lambda>y. key_ord (fst y)) ?r))"
    by (simp add: rev_map)
  moreover have "\<forall>c. filter (\<lambda>y. key_ord (fst y) = c) ?r = filter (\<lambda>y. key_ord (fst y) = c) kxs"
    by (simp add: stable_by_key)
  ultimately show ?thesis using True by auto
next
  case False
  let ?r = "sort_key (\<lambda>y. key_ord (fst y)) kxs"
  have "list_sort rv kxs = Inr (map snd ?r)"
    using assms False by (simp add: list_sort_eq)
  moreover have "mset ?r = mset kxs" by simp
  moreover have "sorted (map (\<lambda>y. key_ord (fst y)) ?r)" by simp
  moreover have "\<forall>c. filter (\<lambda>y. key_ord (fst y) = c) ?r = filter (\<lambda>y. key_ord (fst y) = c) kxs"
    by (simp add: stable_by_key)
  ultimately show ?thesis using False by auto
qed

lemma datetime_min_earliest: "is_naive k \<Longrightarrow> key_ord datetime_min \<le> key_ord k"
  by (cases k) (simp_all add: datetime_min_def)

lemma received_sorted_stable:
  assumes "py_iter (Messages self) = Inr paths"
    and "io_map (MMModemSms E) paths = (es1, Inr constructed)"
    and "io_map (datetime_key E) (filter is_received constructed) = (es2, Inr keyed)"
    and "comparable (map fst keyed)"
  shows "\<exists>r. get_sms E self PyNone rv = (es1 @ es2, Inr (Many (map snd r)))
           \<and> mset r = mset keyed
           \<and> (if rv then sorted (rev (map (\<lambda>y. key_ord (fst y)) r))
               else sorted (map (\<lambda>y. key_ord (fst y)) r))
           \<and> (\<forall>c. filter (\<lambda>y. key_ord (fst y) = c) r = filter (\<lambda>y. key_ord (fst y) = c) keyed)"
proof -
  from list_sort_sorted_stable [OF assms(4), of rv] obtain r
    where r: "list_sort rv keyed = Inr (map snd r)" "mset r = mset keyed"
      "if rv then sorted (rev (map (\<lambda>y. key_ord (fst y)) r))
       else sorted (map (\<lambda>y. key_ord (fst y)) r)"
      "\<forall>c. filter (\<lambda>y. key_ord (fst y) = c) r = filter (\<lambda>y. key_ord (fst y) = c) keyed"
    by blast
  have "get_sms E self PyNone rv = (es1 @ es2, Inr (Many (map snd r)))"
    using assms(1-3) r(1) by (simp add: get_sms_def received_def io_lift_def io_return_def)
  with r show ?thesis by blast
qed

lemma received_raises_if_mixed:
  assumes "py_iter (Messages self) = Inr paths"
    and "io_map (MMModemSms E) paths = (es1, Inr constructed)"
    and "io_map (datetime_key E) (filter is_received constructed) = (es2, Inr keyed)"
    and "\<not> comparable (map fst keyed)"
  shows "get_sms E self PyNone rv = (es1 @ es2, Inl TypeError)"
  using assms by (simp add: get_sms_def received_def io_lift_def list_sort_eq)

section \<open>Lookups and received messages on the sample bus\<close>

lemma sample_ids:
  "object_path ''Modem'' (PyInt 0) = ([], Inr (Some modem0))"
  "object_path ''Modem'' (PyInt 1) = ([], Inr (Some ''/org/freedesktop/ModemManager1/Modem/1''))"
  "object_path ''SMS'' (PyInt 2) = ([], Inr (Some sms2))"
  "object_path ''SMS'' (PyInt 3) = ([], Inr (Some ''/org/freedesktop/ModemManager1/SMS/3''))"
  using object_path_number [of "PyInt 0" 0 "''Modem''"] object_path_number [of "PyInt 1" 1 "''Modem''"]
    object_path_number [of "PyInt 2" 2 "''SMS''"] object_path_number [of "PyInt 3" 3 "''SMS''"]
    fits_small [of 0] fits_small [of 1] fits_small [of 2] fits_small [of 3]
  by (simp_all add: py_int_def objbasepath_def modem0_def sms2_def decimal_small)

text \<open>C1 on the sample bus with one received and one sent message: the result is the
  received one.\<close>

theorem received_only_received_witness:
  "\<exists>paths es' constructed ms.
       py_iter (Messages sample_messaging) = Inr paths
     \<and> io_map (MMModemSms (sample_env msg_received msg_sent (\<lambda>e. None))) paths = (es', Inr constructed)
     \<and> Many [\<lparr>obj_path = sms1, iface_name = ''org.freedesktop.ModemManager1.Sms'',
               properties = Some msg_received\<rparr>] = Many ms
     \<and> mset ms = mset (filter is_received constructed)
     \<and> (\<forall>m \<in> set ms. py_eq (State m) (PyInt MM_SMS_STATE_RECEIVED)
           \<and> \<not> py_eq (State m) (PyInt MM_SMS_STATE_UNKNOWN)
           \<and> \<not> py_eq (State m) (PyInt MM_SMS_STATE_STORED)
           \<and> \<not> py_eq (State m) (PyInt MM_SMS_STATE_RECEIVING)
           \<and> \<not> py_eq (State m) (PyInt MM_SMS_STATE_SENDING)
           \<and> \<not> py_eq (State m) (PyInt MM_SMS_STATE_SENT))"
  by (rule received_only_received [OF sample_received_one])

lemma sample_get_modem:
  "get_modem (sample_env d1 d2 s) sample_manager (PyInt 0)
     = ([GetAll modem0 ''org.freedesktop.ModemManager1.Modem''],
        Inr (Some \<lparr>obj_path = modem0, iface_name = ''org.freedesktop.ModemManager1.Modem'',
                   properties = Some modem0_properties\<rparr>))"
  "get_modem (sample_env d1 d2 s) sample_manager (PyStr modem0)
     = ([GetAll modem0 ''org.freedesktop.ModemManager1.Modem''],
        Inr (Some \<lparr>obj_path = modem0, iface_name = ''org.freedesktop.ModemManager1.Modem'',
                   properties = Some modem0_properties\<rparr>))"
  by (simp_all add: get_modem_def sample_ids sample_paths sample_manager_def path_val_def sample_modem
      io_return_def)




text \<open>
  Claim C2 says that \<open>get_sms\<close> sorts the received messages by time stamp, latest first
  unless \<open>reverse\<close> is false, that a message without a usable time stamp sorts as the
  earliest, and that equal keys keep their order. \<open>received_sorted_stable\<close> gives this for
  the lists whose keys are all naive or all aware (\<open>datetime_min_earliest\<close> for the first
  case). The key of a message without a usable
  time stamp is \<open>datetime.min\<close>, which is naive; the time stamps of ModemManager carry a UTC
  offset and parse to aware values. On the sample bus with a message stamped
  \<open>2024-01-01T10:00:00+01:00\<close> and a message with no time stamp, both received, the sort
  compares an aware key with a naive one and \<open>get_sms\<close> raises \<open>TypeError\<close>, for either
  direction.
\<close>

theorem received_raises_on_mixed_keys:
  "snd (get_sms (sample_env msg_received_offset msg_received_no_stamp (\<lambda>e. None)) sample_messaging PyNone True)
     = Inl TypeError
   \<and> snd (get_sms (sample_env msg_received_offset msg_received_no_stamp (\<lambda>e. None)) sample_messaging PyNone False)
     = Inl TypeError"
  by (simp add: sample_received_mixed)

lemma sample_state_test:
  "py_in v (get_property \<lparr>obj_path = modem0, iface_name = ''org.freedesktop.ModemManager1.Modem'',
                          properties = Some modem0_properties\<rparr> ''State'') = Inl TypeError"
  by (simp add: py_in_def get_property_def modem0_properties_def)

text \<open>What \<open>get_modem_by\<close> returns when it returns: the one match, the list of matches,
  or \<open>None\<close> for a name outside the allow-list.\<close>

lemma matching_modems_filter:
  "matching_modems E n v ps = (es, Inr ms) \<Longrightarrow>
   \<exists>es' constructed. io_map (\<lambda>p. MMModem E (PyStr p)) ps = (es', Inr constructed)
      \<and> ms = filter (\<lambda>x. py_in v (get_property x n) = Inr True) constructed"
proof (induction ps arbitrary: es ms)
  case Nil
  then show ?case by (simp add: io_return_def)
next
  case (Cons p ps)
  from Cons.prems obtain e1 x keep e2 rest
    where x: "MMModem E (PyStr p) = (e1, Inr x)"
      and keep: "py_in v (get_property x n) = Inr keep"
      and rest: "matching_modems E n v ps = (e2, Inr rest)"
      and ms: "ms = (if keep then x # rest else rest)"
    by (auto simp: io_bind_eq_Inr io_lift_def io_return_def)
  from Cons.IH [OF rest] obtain e3 constructed
    where c: "io_map (\<lambda>p. MMModem E (PyStr p)) ps = (e3, Inr constructed)"
      "rest = filter (\<lambda>x. py_in v (get_property x n) = Inr True) constructed"
    by blast
  have "io_map (\<lambda>p. MMModem E (PyStr p)) (p # ps) = (e1 @ e3, Inr (x # constructed))"
    using x c(1) by (simp add: io_return_def)
  moreover have "ms = filter (\<lambda>x. py_in v (get_property x n) = Inr True) (x # constructed)"
    using ms keep c(2) by simp
  ultimately show ?case by blast
qed

lemma get_modem_by_shape:
  assumes "v \<noteq> PyNone" and "get_modem_by E self n v = (es, Inr r)"
  shows "(n \<in> set [''Manufacturer'', ''Model'', ''EquipmentIdentifier'',
                     ''OwnNumbers'', ''PrimaryPort'', ''State'']
          \<and> (\<exists>ms. matching_modems E n v (modems self) = (es, Inr ms)
                \<and> r = (if length ms = 1 then Single (ms ! 0) else Many ms)))
       \<or> (n \<notin> set [''Manufacturer'', ''Model'', ''EquipmentIdentifier'',
                      ''OwnNumbers'', ''PrimaryPort'', ''State'']
          \<and> r = Nothing \<and> es = [])"
  using assms
  by (auto simp: get_modem_by_def io_bind_eq_Inr io_return_def split: if_splits)

lemma sample_get_modem_by:
  "snd (get_modem_by (sample_env d1 d2 s) sample_manager ''Manufacturer'' (PyStr ''QUAL''))
     = Inr (Single sample_modem0)"
  "snd (get_modem_by (sample_env d1 d2 s) sample_manager ''OwnNumbers'' (PyStr ''+491700000000''))
     = Inr (Single sample_modem0)"
  "snd (get_modem_by (sample_env d1 d2 s) sample_manager ''Manufacturer'' (PyStr ''Huawei''))
     = Inr (Many [])"
  "snd (get_modem_by (sample_env d1 d2 s) sample_manager ''Vendor'' (PyStr ''QUAL''))
     = Inr Nothing"
  by (simp_all add: get_modem_by_def sample_manager_def sample_modem sample_modem0_def
      py_in_def get_property_def modem0_properties_def io_return_def sublist_code(3))

text \<open>
  Claim C6 says that \<open>get_modem_by\<close> with a name of the allow-list and a value other than
  \<open>None\<close> keeps the modems whose property contains the value, and returns the one match or
  the list of matches. \<open>State\<close> is in the allow-list, and the \<open>State\<close> of a modem is a
  \<open>dbus.Int32\<close>, which \<open>get_property\<close> returns as an integer: the \<open>in\<close> of line 232 raises
  \<open>TypeError\<close> for it, whatever the value. On the sample bus (one modem, \<open>State\<close> 8) the
  lookup by \<open>State\<close> raises after constructing the modem. For the calls that return,
  \<open>get_modem_by_shape\<close> and \<open>matching_modems_filter\<close> give what the claim says.
\<close>

theorem get_modem_by_state_raises:
  "get_modem_by (sample_env msg_received msg_sent (\<lambda>e. None)) sample_manager ''State'' (PyInt 8)
     = ([GetAll modem0 ''org.freedesktop.ModemManager1.Modem''], Inl TypeError)
   \<and> get_modem_by (sample_env msg_received msg_sent (\<lambda>e. None)) sample_manager ''State'' (PyStr ''8'')
     = ([GetAll modem0 ''org.freedesktop.ModemManager1.Modem''], Inl TypeError)"
  by (simp add: get_modem_by_def sample_manager_def sample_modem sample_state_test)

section \<open>The trace of a poll cycle\<close>

lemma attempts_append [simp]: "attempts (a @ b) = attempts a @ attempts b"
  by (simp add: attempts_def)

lemma attempts_Nil [simp]: "attempts [] = []"
  by (simp add: attempts_def)

lemma attempts_Cons:
  "attempts (e # es) = (if is_send e \<or> is_delete e then e # attempts es else attempts es)"
  by (simp add: attempts_def)

lemma attempts_empty_iff: "attempts es = [] \<longleftrightarrow> \<not> list_ex is_send es \<and> \<not> list_ex is_delete es"
  by (auto simp: attempts_def filter_empty_conv list_ex_iff)

lemma io_bind_fst_snd:
  "io_bind m f = (case snd m of Inl e \<Rightarrow> (fst m, Inl e) | Inr x \<Rightarrow> (fst m @ fst (f x), snd (f x)))"
  by (cases m; cases "snd m") (auto simp: io_bind_def split: prod.splits)

lemma attempts_io_bind:
  assumes "attempts (fst m) = []" and "\<And>x. attempts (fst (f x)) = []"
  shows "attempts (fst (io_bind m f)) = []"
  using assms by (simp add: io_bind_fst_snd split: sum.splits)

lemma attempts_io_map:
  assumes "\<And>x. attempts (fst (f x)) = []"
  shows "attempts (fst (io_map f xs)) = []"
  by (induction xs) (simp_all add: io_return_def attempts_io_bind assms)

lemma attempts_object_path [simp]: "attempts (fst (object_path obj path)) = []"
  using object_path_cases [of obj path] by (auto simp: attempts_Cons)

lemma attempts_get_properties [simp]: "attempts (fst (get_properties E p i)) = []"
  by (cases "get_all E p i") (simp_all add: get_properties_def io_return_def attempts_Cons)

lemma attempts_new_interface [simp]: "attempts (fst (new_interface E path i)) = []"
  by (cases path) (simp_all add: new_interface_def io_raise_def io_return_def attempts_io_bind)

lemma attempts_MMModem [simp]: "attempts (fst (MMModem E v)) = []"
  by (simp add: MMModem_def attempts_io_bind)

lemma attempts_MMModemSms [simp]: "attempts (fst (MMModemSms E v)) = []"
  by (simp add: MMModemSms_def attempts_io_bind)

lemma attempts_get_datetime [simp]: "attempts (fst (get_datetime E x)) = []"
  by (simp add: get_datetime_def Let_def io_return_def io_raise_def attempts_Cons split: option.splits)

lemma attempts_get_date [simp]: "attempts (fst (get_date E x)) = []"
  by (simp add: get_date_def attempts_io_bind io_return_def split: option.splits)

lemma attempts_datetime_key [simp]: "attempts (fst (datetime_key E x)) = []"
  by (simp add: datetime_key_def attempts_io_bind io_return_def)

lemma attempts_received [simp]: "attempts (fst (received E self rv)) = []"
  by (simp add: received_def attempts_io_bind attempts_io_map io_lift_def)

lemma attempts_get_sms [simp]: "attempts (fst (get_sms E self sms rv)) = []"
  by (simp add: get_sms_def attempts_io_bind io_return_def io_lift_def)

lemma attempts_ModemManager [simp]: "attempts (fst (ModemManager E)) = []"
  by (simp add: ModemManager_def io_raise_def io_return_def attempts_Cons split: option.splits)

lemma attempts_get_modem [simp]: "attempts (fst (get_modem E self v)) = []"
  by (simp add: get_modem_def attempts_io_bind io_return_def)

lemma attempts_get_first [simp]: "attempts (fst (get_first E self)) = []"
  by (simp add: get_first_def io_return_def split: list.splits)

lemma attempts_MMModemMessaging [simp]: "attempts (fst (MMModemMessaging E m)) = []"
  by (cases m) (simp_all add: MMModemMessaging_def attempts_io_bind io_return_def)

lemma send_email_cases:
  "send_email E C subj bdy = ([], Inl IndexError)
   \<or> (\<exists>msg. subject msg = subj \<and> body msg = bdy
         \<and> send_email E C subj bdy
             = ([SmtpSend msg,
                 (case smtp E msg of
                    None \<Rightarrow> Log INFO ''Email sent successfully.'' []
                  | Some e \<Rightarrow> Log ERROR ''Failed to send email: %s'' [Exc e])],
                Inr ()))"
proof -
  obtain fname femail where pa: "parseaddr E (mail_from C) = (fname, femail)"
    by (cases "parseaddr E (mail_from C)")
  show ?thesis
  proof (cases "index_1 (split_sep CHR ''@'' femail)")
    case (Inl e)
    then have "e = IndexError"
      by (auto simp: index_1_def split: if_splits)
    with Inl pa show ?thesis by (simp add: send_email_def)
  next
    case (Inr d)
    let ?msg = "\<lparr>from_name = fname, from_email = femail, from_domain = d,
                 to_addrs = mail_to C, subject = subj, body = bdy\<rparr>"
    have "send_email E C subj bdy
             = ([SmtpSend ?msg,
                 (case smtp E ?msg of
                    None \<Rightarrow> Log INFO ''Email sent successfully.'' []
                  | Some e \<Rightarrow> Log ERROR ''Failed to send email: %s'' [Exc e])],
                Inr ())"
      using Inr pa by (simp add: send_email_def io_emit_def split: option.splits)
    moreover have "subject ?msg = subj \<and> body ?msg = bdy" by simp
    ultimately show ?thesis by blast
  qed
qed

lemma delete_after_trace:
  "delete_after E mg m
     = ([Delete (obj_path mg) (obj_path m),
         (case bus_delete E (obj_path mg) (obj_path m) of
            None \<Rightarrow> Log INFO ''Deleted SMS %s'' [Val (PyStr (obj_path m))]
          | Some e \<Rightarrow> Log ERROR ''Failed to delete SMS %s: %s'' [Val (PyStr (obj_path m)), Exc e])],
        Inr ())"
  by (simp add: delete_after_def delete_sms_def io_return_def io_raise_def split: option.splits)

lemma process_message_cases:
  "(\<exists>e. snd (process_message E C mg m) = Inl e \<and> attempts (fst (process_message E C mg m)) = [])
   \<or> (\<exists>pre msg. attempts pre = []
        \<and> process_message E C mg m
            = (pre @ [SmtpSend msg,
                      (case smtp E msg of
                         None \<Rightarrow> Log INFO ''Email sent successfully.'' []
                       | Some e \<Rightarrow> Log ERROR ''Failed to send email: %s'' [Exc e])]
                   @ (if delete_after_sending C then fst (delete_after E mg m) else []),
               Inr ()))"
proof (cases "sender_name_of C (Number m)")
  case (Inl e)
  then show ?thesis by (simp add: process_message_def)
next
  case (Inr nm)
  obtain ws rd where gd: "get_date E m = (ws, rd)"
    by (cases "get_date E m")
  have ws: "attempts ws = []"
    using attempts_get_date [of E m] gd by simp
  show ?thesis
  proof (cases rd)
    case (Inl e)
    with Inr gd ws show ?thesis
      by (simp add: process_message_def attempts_Cons)
  next
    case date: (Inr date)
    let ?subj = "[Lit ''New SMS from '', Fmt nm]"
    let ?bdy = "[Lit ''From: '', Fmt nm, Lit (''\<newline>Date: '' @ date @ ''\<newline>\<newline>''), Fmt (Text m)]"
    from send_email_cases [of E C ?subj ?bdy] show ?thesis
    proof
      assume "send_email E C ?subj ?bdy = ([], Inl IndexError)"
      with Inr gd date ws show ?thesis
        by (simp add: process_message_def attempts_Cons)
    next
      assume "\<exists>msg. subject msg = ?subj \<and> body msg = ?bdy
         \<and> send_email E C ?subj ?bdy
             = ([SmtpSend msg,
                 (case smtp E msg of
                    None \<Rightarrow> Log INFO ''Email sent successfully.'' []
                  | Some e \<Rightarrow> Log ERROR ''Failed to send email: %s'' [Exc e])],
                Inr ())"
      then obtain msg where se: "send_email E C ?subj ?bdy
             = ([SmtpSend msg,
                 (case smtp E msg of
                    None \<Rightarrow> Log INFO ''Email sent successfully.'' []
                  | Some e \<Rightarrow> Log ERROR ''Failed to send email: %s'' [Exc e])],
                Inr ())"
        by blast
      let ?pre = "Log INFO ''SMS from %s: %s'' [Val (Number m), Val (Text m)] # ws"
      have "attempts ?pre = []"
        using ws by (simp add: attempts_Cons)
      moreover have "process_message E C mg m
            = (?pre @ [SmtpSend msg,
                      (case smtp E msg of
                         None \<Rightarrow> Log INFO ''Email sent successfully.'' []
                       | Some e \<Rightarrow> Log ERROR ''Failed to send email: %s'' [Exc e])]
                   @ (if delete_after_sending C then fst (delete_after E mg m) else []),
               Inr ())"
        using Inr gd date se
        by (simp add: process_message_def delete_after_trace io_return_def)
      ultimately show ?thesis by blast
    qed
  qed
qed

lemma for_each_trace:
  "\<exists>k \<le> length xs.
      fst (for_each f xs) = concat (map (\<lambda>x. fst (f x)) (take k xs))
    \<and> (\<forall>x \<in> set (take (k - 1) xs). snd (f x) = Inr ())
    \<and> (snd (for_each f xs) = Inr () \<longrightarrow> k = length xs)"
proof (induction xs)
  case Nil
  then show ?case by (simp add: io_return_def)
next
  case (Cons x xs)
  then obtain k where k: "k \<le> length xs"
    "fst (for_each f xs) = concat (map (\<lambda>x. fst (f x)) (take k xs))"
    "\<forall>x \<in> set (take (k - 1) xs). snd (f x) = Inr ()"
    "snd (for_each f xs) = Inr () \<longrightarrow> k = length xs"
    by blast
  show ?case
  proof (cases "snd (f x)")
    case (Inl e)
    then have "fst (for_each f (x # xs)) = concat (map (\<lambda>x. fst (f x)) (take 1 (x # xs)))"
      and "snd (for_each f (x # xs)) \<noteq> Inr ()"
      by (simp_all add: io_bind_fst_snd)
    then show ?thesis
      by (intro exI [of _ 1]) simp
  next
    case (Inr u)
    then have "fst (for_each f (x # xs)) = concat (map (\<lambda>x. fst (f x)) (take (Suc k) (x # xs)))"
      and "snd (for_each f (x # xs)) = snd (for_each f xs)"
      using k(2) by (simp_all add: io_bind_fst_snd)
    moreover have "\<forall>y \<in> set (take (Suc k - 1) (x # xs)). snd (f y) = Inr ()"
      using k(3) Inr by (cases k) auto
    ultimately show ?thesis
      using k(1,4) by (intro exI [of _ "Suc k"]) simp
  qed
qed

lemma same_course_refl [simp]: "same_course m m"
  by (simp add: same_course_def)

lemma same_course_bind:
  assumes "same_course m m'" and "\<And>x. same_course (f x) (f' x)"
  shows "same_course (io_bind m f) (io_bind m' f')"
  using assms by (auto simp: same_course_def io_bind_fst_snd split: sum.splits)

lemma same_course_for_each:
  assumes "\<And>x. same_course (f x) (f' x)"
  shows "same_course (for_each f xs) (for_each f' xs)"
  by (induction xs) (simp_all add: same_course_bind assms)

lemma smtp_irrelevant:
  "get_properties (E\<lparr>smtp := f\<rparr>) = get_properties E"
  "new_interface (E\<lparr>smtp := f\<rparr>) = new_interface E"
  "MMModem (E\<lparr>smtp := f\<rparr>) = MMModem E"
  "MMModemSms (E\<lparr>smtp := f\<rparr>) = MMModemSms E"
  "get_datetime (E\<lparr>smtp := f\<rparr>) = get_datetime E"
  "delete_sms (E\<lparr>smtp := f\<rparr>) = delete_sms E"
  "ModemManager (E\<lparr>smtp := f\<rparr>) = ModemManager E"
  by (simp_all add: fun_eq_iff get_properties_def new_interface_def MMModem_def MMModemSms_def
      get_datetime_def delete_sms_def ModemManager_def Let_def
      cong: if_cong option.case_cong)

lemma smtp_irrelevant_2:
  "get_date (E\<lparr>smtp := f\<rparr>) = get_date E"
  "datetime_key (E\<lparr>smtp := f\<rparr>) = datetime_key E"
  "delete_after (E\<lparr>smtp := f\<rparr>) = delete_after E"
  "get_modem (E\<lparr>smtp := f\<rparr>) = get_modem E"
  "MMModemMessaging (E\<lparr>smtp := f\<rparr>) = MMModemMessaging E"
  by (simp_all add: fun_eq_iff get_date_def datetime_key_def delete_after_def get_modem_def
      MMModemMessaging_def smtp_irrelevant cong: if_cong option.case_cong sum.case_cong)

lemma smtp_irrelevant_3:
  "received (E\<lparr>smtp := f\<rparr>) = received E"
  "get_first (E\<lparr>smtp := f\<rparr>) = get_first E"
  by (simp_all add: fun_eq_iff received_def get_first_def smtp_irrelevant smtp_irrelevant_2
      cong: if_cong list.case_cong)

lemma smtp_irrelevant_4:
  "get_sms (E\<lparr>smtp := f\<rparr>) = get_sms E"
  by (simp add: fun_eq_iff get_sms_def smtp_irrelevant smtp_irrelevant_3 cong: if_cong)

lemma send_email_same_course:
  "same_course (send_email (E\<lparr>smtp := f\<rparr>) C subj bdy) (send_email E C subj bdy)"
proof -
  obtain fname femail where pa: "parseaddr E (mail_from C) = (fname, femail)"
    by (cases "parseaddr E (mail_from C)")
  show ?thesis
    using pa
    by (cases "index_1 (split_sep CHR ''@'' femail)")
      (auto simp: send_email_def same_course_def io_emit_def attempts_Cons Let_def split: option.splits)
qed

lemma process_message_same_course:
  "same_course (process_message (E\<lparr>smtp := f\<rparr>) C mg m) (process_message E C mg m)"
  unfolding process_message_def Let_def smtp_irrelevant smtp_irrelevant_2
  by (intro same_course_bind same_course_refl send_email_same_course)

lemma process_messages_same_course:
  "same_course (process_messages (E\<lparr>smtp := f\<rparr>) C) (process_messages E C)"
  unfolding process_messages_def smtp_irrelevant smtp_irrelevant_2 smtp_irrelevant_3 smtp_irrelevant_4
  by (intro same_course_bind same_course_refl)
    (auto split: option.splits shape.splits intro!: same_course_bind same_course_for_each
      process_message_same_course)

lemma attempts_concat: "attempts (concat xss) = concat (map attempts xss)"
  by (induction xss) simp_all

lemma filter_send_attempts: "filter is_send (attempts es) = filter is_send es"
  by (induction es) (auto simp: attempts_Cons)

lemma filter_delete_attempts: "filter is_delete (attempts es) = filter is_delete es"
  by (induction es) (auto simp: attempts_Cons)

lemma process_message_attempts:
  "(\<exists>e. snd (process_message E C mg m) = Inl e \<and> attempts (fst (process_message E C mg m)) = [])
   \<or> (\<exists>msg. snd (process_message E C mg m) = Inr ()
         \<and> attempts (fst (process_message E C mg m))
             = SmtpSend msg # (if delete_after_sending C then [Delete (obj_path mg) (obj_path m)] else []))"
  using process_message_cases [of E C mg m]
  by (auto simp: delete_after_trace attempts_Cons split: option.splits)

lemma process_messages_unfold:
  assumes "ModemManager E = (e0, Inr mm)" and "get_first E mm = (e1, Inr (Some md))"
    and "MMModemMessaging E (Inr md) = (e2, Inr mg)" and "get_sms E mg PyNone True = (e3, Inr (Many ms))"
  shows "process_messages E C
           = (e0 @ e1 @ e2 @ e3 @ fst (for_each (process_message E C mg) ms),
              snd (for_each (process_message E C mg) ms))"
  using assms by (simp add: process_messages_def)

lemma prefix_quiet:
  assumes "ModemManager E = (e0, Inr mm)" and "get_first E mm = (e1, Inr (Some md))"
    and "MMModemMessaging E (Inr md) = (e2, Inr mg)" and "get_sms E mg PyNone True = (e3, Inr (Many ms))"
  shows "attempts (e0 @ e1 @ e2 @ e3) = []"
  using attempts_ModemManager [of E] attempts_get_first [of E mm]
    attempts_MMModemMessaging [of E "Inr md"] attempts_get_sms [of E mg PyNone True] assms
  by simp

section \<open>Claims about the poll cycle\<close>

text \<open>
  Claim C3. In a cycle that found a modem and fetched the messages \<open>ms\<close>, the trace after
  the fetch is the traces of the messages' own passes through the loop body, one after the
  other in the order of \<open>ms\<close>, up to the first pass that raises (all of \<open>ms\<close> when the cycle
  returns). A pass that returns makes one send attempt and then, when deleting is enabled,
  one delete attempt for its own message; a pass that raises makes neither. So a delete
  follows the send of its own message and precedes the send of the next. A cycle over two
  messages with deleting enabled that returns makes send, delete, send, delete: two send
  and two delete attempts.
\<close>

theorem delivery_in_order:
  assumes "ModemManager E = (e0, Inr mm)" and "get_first E mm = (e1, Inr (Some md))"
    and "MMModemMessaging E (Inr md) = (e2, Inr mg)" and "get_sms E mg PyNone True = (e3, Inr (Many ms))"
  shows "(\<exists>k \<le> length ms.
            fst (process_messages E C)
              = e0 @ e1 @ e2 @ e3 @ concat (map (\<lambda>m. fst (process_message E C mg m)) (take k ms))
          \<and> attempts (fst (process_messages E C))
              = concat (map (\<lambda>m. attempts (fst (process_message E C mg m))) (take k ms))
          \<and> (\<forall>m \<in> set (take (k - 1) ms). snd (process_message E C mg m) = Inr ())
          \<and> (snd (process_messages E C) = Inr () \<longrightarrow> k = length ms))
       \<and> (\<forall>m. (\<exists>e. snd (process_message E C mg m) = Inl e
                  \<and> attempts (fst (process_message E C mg m)) = [])
             \<or> (\<exists>msg. snd (process_message E C mg m) = Inr ()
                  \<and> attempts (fst (process_message E C mg m))
                      = SmtpSend msg # (if delete_after_sending C
                                        then [Delete (obj_path mg) (obj_path m)] else [])))
       \<and> (delete_after_sending C \<and> ms = [a, b] \<and> snd (process_messages E C) = Inr () \<longrightarrow>
            (\<exists>ma mb. attempts (fst (process_messages E C))
                       = [SmtpSend ma, Delete (obj_path mg) (obj_path a),
                          SmtpSend mb, Delete (obj_path mg) (obj_path b)])
            \<and> length (filter is_send (fst (process_messages E C))) = 2
            \<and> length (filter is_delete (fst (process_messages E C))) = 2)"
proof (intro conjI allI impI)
  note unfold = process_messages_unfold [OF assms, of C]
  note quiet = prefix_quiet [OF assms]
  obtain k where k: "k \<le> length ms"
    "fst (for_each (process_message E C mg) ms)
       = concat (map (\<lambda>m. fst (process_message E C mg m)) (take k ms))"
    "\<forall>m \<in> set (take (k - 1) ms). snd (process_message E C mg m) = Inr ()"
    "snd (for_each (process_message E C mg) ms) = Inr () \<longrightarrow> k = length ms"
    using for_each_trace [of ms "process_message E C mg"] by blast
  have "attempts (fst (process_messages E C))
          = attempts (e0 @ e1 @ e2 @ e3) @ attempts (fst (for_each (process_message E C mg) ms))"
    unfolding unfold by simp
  then have att: "attempts (fst (process_messages E C))
          = concat (map (\<lambda>m. attempts (fst (process_message E C mg m))) (take k ms))"
    using quiet k(2) by (simp add: attempts_concat comp_def)
  show "\<exists>k \<le> length ms.
            fst (process_messages E C)
              = e0 @ e1 @ e2 @ e3 @ concat (map (\<lambda>m. fst (process_message E C mg m)) (take k ms))
          \<and> attempts (fst (process_messages E C))
              = concat (map (\<lambda>m. attempts (fst (process_message E C mg m))) (take k ms))
          \<and> (\<forall>m \<in> set (take (k - 1) ms). snd (process_message E C mg m) = Inr ())
          \<and> (snd (process_messages E C) = Inr () \<longrightarrow> k = length ms)"
    using k att unfold by (intro exI [of _ k]) simp
  show "(\<exists>e. snd (process_message E C mg m) = Inl e
                  \<and> attempts (fst (process_message E C mg m)) = [])
             \<or> (\<exists>msg. snd (process_message E C mg m) = Inr ()
                  \<and> attempts (fst (process_message E C mg m))
                      = SmtpSend msg # (if delete_after_sending C
                                        then [Delete (obj_path mg) (obj_path m)] else []))" for m
    by (rule process_message_attempts)
  assume two: "delete_after_sending C \<and> ms = [a, b] \<and> snd (process_messages E C) = Inr ()"
  then have kk: "k = 2" and ok: "\<forall>m \<in> set [a]. snd (process_message E C mg m) = Inr ()"
    using k(3,4) unfold by auto
  have okb: "snd (process_message E C mg b) = Inr ()"
    using two unfold ok by (simp add: io_bind_fst_snd split: sum.splits)
  obtain ma where ma: "attempts (fst (process_message E C mg a))
        = [SmtpSend ma, Delete (obj_path mg) (obj_path a)]"
    using process_message_attempts [of E C mg a] ok two by auto
  obtain mb where mb: "attempts (fst (process_message E C mg b))
        = [SmtpSend mb, Delete (obj_path mg) (obj_path b)]"
    using process_message_attempts [of E C mg b] okb two by auto
  have all: "attempts (fst (process_messages E C))
      = [SmtpSend ma, Delete (obj_path mg) (obj_path a), SmtpSend mb, Delete (obj_path mg) (obj_path b)]"
    using att kk two ma mb by simp
  then show "\<exists>ma mb. attempts (fst (process_messages E C))
                       = [SmtpSend ma, Delete (obj_path mg) (obj_path a),
                          SmtpSend mb, Delete (obj_path mg) (obj_path b)]"
    by blast
  show "length (filter is_send (fst (process_messages E C))) = 2"
    using arg_cong [OF all, of "filter is_send"] by (simp add: filter_send_attempts)
  show "length (filter is_delete (fst (process_messages E C))) = 2"
    using arg_cong [OF all, of "filter is_delete"] by (simp add: filter_delete_attempts)
qed

lemma send_in_process_message:
  assumes "SmtpSend msg \<in> set (fst (process_message E C mg m))"
  shows "\<exists>pre. attempts pre = []
        \<and> process_message E C mg m
            = (pre @ [SmtpSend msg,
                      (case smtp E msg of
                         None \<Rightarrow> Log INFO ''Email sent successfully.'' []
                       | Some e \<Rightarrow> Log ERROR ''Failed to send email: %s'' [Exc e])]
                   @ (if delete_after_sending C then fst (delete_after E mg m) else []),
               Inr ())"
proof -
  have "SmtpSend msg \<in> set (attempts (fst (process_message E C mg m)))"
    using assms by (simp add: attempts_def)
  then have ne: "attempts (fst (process_message E C mg m)) \<noteq> []" by auto
  with process_message_cases [of E C mg m] obtain pre msg'
    where pre: "attempts pre = []"
      and eq: "process_message E C mg m
            = (pre @ [SmtpSend msg',
                      (case smtp E msg' of
                         None \<Rightarrow> Log INFO ''Email sent successfully.'' []
                       | Some e \<Rightarrow> Log ERROR ''Failed to send email: %s'' [Exc e])]
                   @ (if delete_after_sending C then fst (delete_after E mg m) else []),
               Inr ())"
    by blast
  have "SmtpSend msg \<notin> set pre"
    using pre by (auto simp: attempts_def filter_empty_conv)
  then have "msg = msg'"
    using assms eq by (auto simp: delete_after_trace split: option.splits if_splits)
  with pre eq show ?thesis by blast
qed

text \<open>
  Claim C8. When the enumeration succeeds and \<open>get_first\<close> returns \<open>None\<close>, the cycle
  returns without an exception, and its trace is that of the enumeration and of
  \<open>get_first\<close>: no property fetch (so no message fetch), no send attempt, no delete
  attempt.
\<close>

theorem no_modem_no_work:
  assumes "ModemManager E = (e0, Inr mm)" and "get_first E mm = (e1, Inr None)"
  shows "process_messages E C = (e0 @ e1, Inr ())
       \<and> \<not> list_ex is_fetch (fst (process_messages E C))
       \<and> \<not> list_ex is_send (fst (process_messages E C))
       \<and> \<not> list_ex is_delete (fst (process_messages E C))"
proof -
  have run: "process_messages E C = (e0 @ e1, Inr ())"
    using assms by (simp add: process_messages_def io_return_def)
  have e0: "e0 = [GetManagedObjects]"
    using assms(1) by (auto simp: ModemManager_def io_raise_def io_return_def split: option.splits)
  have "\<not> list_ex is_fetch e1"
  proof (cases "modems mm")
    case Nil
    with assms(2) show ?thesis by (simp add: get_first_def io_return_def)
  next
    case (Cons p ps)
    with assms(2) have "get_modem E mm (PyStr p) = (e1, Inr None)"
      by (simp add: get_first_def)
    with get_modem_fetch_only_found [of E mm "PyStr p"] show ?thesis by simp
  qed
  moreover have "attempts e1 = []"
    using attempts_get_first [of E mm] assms(2) by simp
  ultimately show ?thesis
    using run e0 by (simp add: attempts_empty_iff)
qed

lemma for_each_two:
  "snd (f a) = Inr () \<Longrightarrow>
   for_each f (a # b # rest)
     = (fst (f a) @ fst (f b) @ (case snd (f b) of Inl x \<Rightarrow> [] | Inr u \<Rightarrow> fst (for_each f rest)),
        case snd (f b) of Inl x \<Rightarrow> Inl x | Inr u \<Rightarrow> snd (for_each f rest))"
  by (simp add: io_bind_fst_snd split: sum.splits)

lemma send_email_no_domain:
  "index_1 (split_sep CHR ''@'' (snd (parseaddr E (mail_from C)))) = Inl x \<Longrightarrow>
   send_email E C subj bdy = ([], Inl x)"
  by (cases "parseaddr E (mail_from C)") (simp add: send_email_def)

lemma send_email_domain:
  "index_1 (split_sep CHR ''@'' (snd (parseaddr E (mail_from C)))) = Inr dmn \<Longrightarrow>
   \<exists>msg. subject msg = subj \<and> body msg = bdy
     \<and> send_email E C subj bdy
         = ([SmtpSend msg,
             (case smtp E msg of
                None \<Rightarrow> Log INFO ''Email sent successfully.'' []
              | Some e \<Rightarrow> Log ERROR ''Failed to send email: %s'' [Exc e])],
            Inr ())"
proof -
  assume d: "index_1 (split_sep CHR ''@'' (snd (parseaddr E (mail_from C)))) = Inr dmn"
  obtain fname femail where pa: "parseaddr E (mail_from C) = (fname, femail)"
    by (cases "parseaddr E (mail_from C)")
  let ?msg = "\<lparr>from_name = fname, from_email = femail, from_domain = dmn,
               to_addrs = mail_to C, subject = subj, body = bdy\<rparr>"
  have "send_email E C subj bdy
         = ([SmtpSend ?msg,
             (case smtp E ?msg of
                None \<Rightarrow> Log INFO ''Email sent successfully.'' []
              | Some e \<Rightarrow> Log ERROR ''Failed to send email: %s'' [Exc e])],
            Inr ())"
    using d pa by (simp add: send_email_def io_emit_def split: option.splits)
  moreover have "subject ?msg = subj \<and> body ?msg = bdy" by simp
  ultimately show ?thesis by blast
qed

lemma pass_without_domain:
  assumes "index_1 (split_sep CHR ''@'' (snd (parseaddr E (mail_from C)))) = Inl x"
  shows "attempts (fst (process_message E C mg m)) = []"
proof (cases "sender_name_of C (Number m)")
  case (Inl e)
  then show ?thesis by (simp add: process_message_def)
next
  case (Inr nm)
  obtain ws rd where gd: "get_date E m = (ws, rd)"
    by (cases "get_date E m")
  have ws: "attempts ws = []"
    using attempts_get_date [of E m] gd by simp
  show ?thesis
    using Inr gd ws send_email_no_domain [OF assms]
    by (cases rd) (simp_all add: process_message_def attempts_Cons)
qed

lemma send_in_pass_domain:
  assumes "SmtpSend msg \<in> set (fst (process_message E C mg m))"
  shows "\<exists>dmn. index_1 (split_sep CHR ''@'' (snd (parseaddr E (mail_from C)))) = Inr dmn"
proof (cases "index_1 (split_sep CHR ''@'' (snd (parseaddr E (mail_from C))))")
  case (Inl x)
  have "SmtpSend msg \<in> set (attempts (fst (process_message E C mg m)))"
    using assms by (simp add: attempts_def)
  with pass_without_domain [OF Inl, of mg m] show ?thesis by simp
next
  case (Inr dmn)
  then show ?thesis by blast
qed

lemma next_pass_sends:
  assumes "SmtpSend msg \<in> set (fst (process_message E C mg a))"
    and "sender_name_of C (Number b) = Inr nm" and "snd (get_date E b) = Inr d"
  shows "snd (process_message E C mg b) = Inr ()
       \<and> (\<exists>mb. subject mb = [Lit ''New SMS from '', Fmt nm]
             \<and> SmtpSend mb \<in> set (fst (process_message E C mg b)))"
proof -
  obtain dmn where dmn: "index_1 (split_sep CHR ''@'' (snd (parseaddr E (mail_from C)))) = Inr dmn"
    using send_in_pass_domain [OF assms(1)] by blast
  obtain ws where gd: "get_date E b = (ws, Inr d)"
    using assms(3) by (cases "get_date E b") simp
  let ?subj = "[Lit ''New SMS from '', Fmt nm]"
  let ?bdy = "[Lit ''From: '', Fmt nm, Lit (''\<newline>Date: '' @ d @ ''\<newline>\<newline>''), Fmt (Text b)]"
  obtain mb where mb: "subject mb = ?subj"
    and se: "send_email E C ?subj ?bdy
         = ([SmtpSend mb,
             (case smtp E mb of
                None \<Rightarrow> Log INFO ''Email sent successfully.'' []
              | Some e \<Rightarrow> Log ERROR ''Failed to send email: %s'' [Exc e])],
            Inr ())"
    using send_email_domain [OF dmn, of ?subj ?bdy] by blast
  have "snd (process_message E C mg b) = Inr ()"
    and "SmtpSend mb \<in> set (fst (process_message E C mg b))"
    using assms(2) gd se
    by (simp_all add: process_message_def delete_after_trace io_return_def)
  with mb show ?thesis by blast
qed

text \<open>
  Claim C4. When the SMTP session of \<open>send_email\<close> fails, the function logs the error and
  returns normally. So a pass of the loop for a message \<open>a\<close> whose SMTP session fails
  returns, with the failure logged right after the send attempt, and the loop goes on with
  the message \<open>b\<close> next in order: the trace of the loop over \<open>a\<close>, \<open>b\<close> and the rest is the
  whole pass of \<open>a\<close>, then the whole pass of \<open>b\<close>, then the loop over the rest when the pass
  of \<open>b\<close> returns, and it ends as the loop over the rest does, or with the exception of the
  pass of \<open>b\<close>. The pass of \<open>b\<close> makes its own send attempt, with the subject of \<open>b\<close>, and
  returns, whenever the number of \<open>b\<close> can be looked up and its date can be formatted. In a
  cycle that found a modem and fetched \<open>a\<close>, \<open>b\<close> and the rest, in this order, the trace
  after the fetch is that of the loop. Whatever the outcomes of the SMTP sessions,
  \<open>send_email\<close>, the loop over the messages and the whole cycle end the same way and make
  the same send and delete attempts.
\<close>

theorem send_failure_does_not_abort:
  "(smtp E msg = Some e \<and> SmtpSend msg \<in> set (fst (send_email E C subj bdy)) \<longrightarrow>
      send_email E C subj bdy
        = ([SmtpSend msg, Log ERROR ''Failed to send email: %s'' [Exc e]], Inr ()))
   \<and> (smtp E msg = Some e \<and> SmtpSend msg \<in> set (fst (process_message E C mg a)) \<longrightarrow>
        snd (process_message E C mg a) = Inr ()
      \<and> (\<exists>pre post. fst (process_message E C mg a)
            = pre @ [SmtpSend msg, Log ERROR ''Failed to send email: %s'' [Exc e]] @ post)
      \<and> for_each (process_message E C mg) (a # b # rest)
          = (fst (process_message E C mg a) @ fst (process_message E C mg b)
               @ (case snd (process_message E C mg b) of
                    Inl x \<Rightarrow> []
                  | Inr u \<Rightarrow> fst (for_each (process_message E C mg) rest)),
             case snd (process_message E C mg b) of
               Inl x \<Rightarrow> Inl x
             | Inr u \<Rightarrow> snd (for_each (process_message E C mg) rest))
      \<and> (sender_name_of C (Number b) = Inr nm \<and> snd (get_date E b) = Inr d \<longrightarrow>
           snd (process_message E C mg b) = Inr ()
           \<and> (\<exists>mb. subject mb = [Lit ''New SMS from '', Fmt nm]
                 \<and> SmtpSend mb \<in> set (fst (process_message E C mg b))))
      \<and> (ModemManager E = (e0, Inr mm) \<and> get_first E mm = (e1, Inr (Some md))
           \<and> MMModemMessaging E (Inr md) = (e2, Inr mg)
           \<and> get_sms E mg PyNone True = (e3, Inr (Many (a # b # rest))) \<longrightarrow>
           process_messages E C
             = (e0 @ e1 @ e2 @ e3 @ fst (process_message E C mg a) @ fst (process_message E C mg b)
                  @ (case snd (process_message E C mg b) of
                       Inl x \<Rightarrow> []
                     | Inr u \<Rightarrow> fst (for_each (process_message E C mg) rest)),
                case snd (process_message E C mg b) of
                  Inl x \<Rightarrow> Inl x
                | Inr u \<Rightarrow> snd (for_each (process_message E C mg) rest))))
   \<and> same_course (send_email (E\<lparr>smtp := f\<rparr>) C subj bdy) (send_email E C subj bdy)
   \<and> same_course (for_each (process_message (E\<lparr>smtp := f\<rparr>) C mg) ms)
        (for_each (process_message E C mg) ms)
   \<and> same_course (process_messages (E\<lparr>smtp := f\<rparr>) C) (process_messages E C)"
proof (intro conjI impI)
  assume a: "smtp E msg = Some e \<and> SmtpSend msg \<in> set (fst (send_email E C subj bdy))"
  with send_email_cases [of E C subj bdy] obtain msg'
    where eq: "send_email E C subj bdy
             = ([SmtpSend msg',
                 (case smtp E msg' of
                    None \<Rightarrow> Log INFO ''Email sent successfully.'' []
                  | Some e \<Rightarrow> Log ERROR ''Failed to send email: %s'' [Exc e])],
                Inr ())"
    by auto
  with a have "msg' = msg" by (auto split: option.splits)
  with eq a show "send_email E C subj bdy
        = ([SmtpSend msg, Log ERROR ''Failed to send email: %s'' [Exc e]], Inr ())"
    by simp
next
  assume a: "smtp E msg = Some e \<and> SmtpSend msg \<in> set (fst (process_message E C mg a))"
  then obtain pre where eq: "process_message E C mg a
            = (pre @ [SmtpSend msg,
                      (case smtp E msg of
                         None \<Rightarrow> Log INFO ''Email sent successfully.'' []
                       | Some e \<Rightarrow> Log ERROR ''Failed to send email: %s'' [Exc e])]
                   @ (if delete_after_sending C then fst (delete_after E mg a) else []),
               Inr ())"
    using send_in_process_message [of msg E C mg a] by blast
  then show ret: "snd (process_message E C mg a) = Inr ()" by simp
  from eq a have "fst (process_message E C mg a)
            = pre @ [SmtpSend msg, Log ERROR ''Failed to send email: %s'' [Exc e]]
                @ (if delete_after_sending C then fst (delete_after E mg a) else [])"
    by simp
  then show "\<exists>pre post. fst (process_message E C mg a)
            = pre @ [SmtpSend msg, Log ERROR ''Failed to send email: %s'' [Exc e]] @ post"
    by blast
  show loop: "for_each (process_message E C mg) (a # b # rest)
          = (fst (process_message E C mg a) @ fst (process_message E C mg b)
               @ (case snd (process_message E C mg b) of
                    Inl x \<Rightarrow> []
                  | Inr u \<Rightarrow> fst (for_each (process_message E C mg) rest)),
             case snd (process_message E C mg b) of
               Inl x \<Rightarrow> Inl x
             | Inr u \<Rightarrow> snd (for_each (process_message E C mg) rest))"
    using ret by (rule for_each_two)
  {
    assume "sender_name_of C (Number b) = Inr nm \<and> snd (get_date E b) = Inr d"
    with a have n: "snd (process_message E C mg b) = Inr ()
       \<and> (\<exists>mb. subject mb = [Lit ''New SMS from '', Fmt nm]
             \<and> SmtpSend mb \<in> set (fst (process_message E C mg b)))"
      by (intro next_pass_sends [of msg E C mg a b nm d]) simp_all
    from n show "snd (process_message E C mg b) = Inr ()" by simp
    from n show "\<exists>mb. subject mb = [Lit ''New SMS from '', Fmt nm]
                 \<and> SmtpSend mb \<in> set (fst (process_message E C mg b))" by simp
  }
  assume c: "ModemManager E = (e0, Inr mm) \<and> get_first E mm = (e1, Inr (Some md))
           \<and> MMModemMessaging E (Inr md) = (e2, Inr mg)
           \<and> get_sms E mg PyNone True = (e3, Inr (Many (a # b # rest)))"
  then have "process_messages E C
           = (e0 @ e1 @ e2 @ e3 @ fst (for_each (process_message E C mg) (a # b # rest)),
              snd (for_each (process_message E C mg) (a # b # rest)))"
    by (intro process_messages_unfold [of E e0 mm e1 md e2 mg e3]) simp_all
  then show "process_messages E C
             = (e0 @ e1 @ e2 @ e3 @ fst (process_message E C mg a) @ fst (process_message E C mg b)
                  @ (case snd (process_message E C mg b) of
                       Inl x \<Rightarrow> []
                     | Inr u \<Rightarrow> fst (for_each (process_message E C mg) rest)),
                case snd (process_message E C mg b) of
                  Inl x \<Rightarrow> Inl x
                | Inr u \<Rightarrow> snd (for_each (process_message E C mg) rest))"
    unfolding loop by simp
next
  show "same_course (send_email (E\<lparr>smtp := f\<rparr>) C subj bdy) (send_email E C subj bdy)"
    by (rule send_email_same_course)
  show "same_course (for_each (process_message (E\<lparr>smtp := f\<rparr>) C mg) ms)
        (for_each (process_message E C mg) ms)"
    by (rule same_course_for_each) (rule process_message_same_course)
  show "same_course (process_messages (E\<lparr>smtp := f\<rparr>) C) (process_messages E C)"
    by (rule process_messages_same_course)
qed


section \<open>The poll cycle on the sample bus\<close>

lemma sample_env_fields:
  "managed_objects (sample_env d1 d2 s) = Some [DBusObjectPath modem0]"
  "bus_delete (sample_env d1 d2 s) = (\<lambda>m p. None)"
  "smtp (sample_env d1 d2 s) = s"
  "strftime (sample_env d1 d2 s) = sample_format"
  "parseaddr (sample_env d1 d2 s) = (\<lambda>a. ([], a))"
  by (simp_all add: sample_env_def)

lemma sample_config_fields:
  "delete_after_sending (sample_config d) = d"
  "mail_from (sample_config d) = ''gateway@example.org''"
  by (simp_all add: sample_config_def)

lemma sample_run_manager:
  "ModemManager (sample_env d1 d2 s) = ([GetManagedObjects], Inr sample_manager)"
  by (simp add: ModemManager_def sample_env_fields sample_manager_def io_return_def)

lemma sample_run_first:
  "get_first (sample_env d1 d2 s) sample_manager
     = ([GetAll modem0 ''org.freedesktop.ModemManager1.Modem''], Inr (Some sample_modem0))"
  using sample_get_modem(2) [of d1 d2 s]
  by (simp add: get_first_def sample_manager_def sample_modem0_def)

lemma sample_run_messaging:
  "MMModemMessaging (sample_env d1 d2 s) (Inr sample_modem0)
     = ([GetAll modem0 ''org.freedesktop.ModemManager1.Modem.Messaging''], Inr sample_messaging)"
  by (simp add: MMModemMessaging_def get_properties_def sample_get_all sample_messaging_def
      sample_modem0_def io_return_def)

lemma sample_fields:
  "Number (sample_sms p msg_received) = PyStr ''+491701234567''"
  "Text (sample_sms p msg_received) = PyStr ''Hi''"
  "Number (sample_sms p msg_received_later) = PyStr ''+491707654321''"
  "Text (sample_sms p msg_received_later) = PyStr ''Ho''"
  "obj_path (sample_sms p d) = p"
  "obj_path sample_messaging = modem0"
  by (simp_all add: Number_def Text_def get_property_def sample_sms_def msg_received_def
      msg_received_later_def sample_messaging_def)

lemma sample_dates:
  "get_date (sample_env d1 d2 s) (sample_sms p msg_received) = ([], Inr ''01.01.2024, 10:00:00 Uhr'')"
  "get_date (sample_env d1 d2 s) (sample_sms p msg_received_later) = ([], Inr ''02.01.2024, 09:30:00 Uhr'')"
  by (simp_all add: get_date_def sample_sms_def sample_datetimes sample_env_fields sample_format_def
      io_return_def)

lemma sample_send:
  "send_email (sample_env d1 d2 s) (sample_config das) (subject mail_received) (body mail_received)
     = ([SmtpSend mail_received,
         (case s mail_received of
            None \<Rightarrow> Log INFO ''Email sent successfully.'' []
          | Some e \<Rightarrow> Log ERROR ''Failed to send email: %s'' [Exc e])],
        Inr ())"
  "send_email (sample_env d1 d2 s) (sample_config das) (subject mail_received_later) (body mail_received_later)
     = ([SmtpSend mail_received_later,
         (case s mail_received_later of
            None \<Rightarrow> Log INFO ''Email sent successfully.'' []
          | Some e \<Rightarrow> Log ERROR ''Failed to send email: %s'' [Exc e])],
        Inr ())"
  by (simp_all add: send_email_def sample_env_fields sample_config_def index_1_def Let_def
      mail_received_def mail_received_later_def io_emit_def split: option.splits)

lemma sample_sender:
  "sender_name_of (sample_config das) (PyStr n) = Inr (PyStr n)"
  by (simp add: sender_name_of_def sample_config_def)

lemma sample_process:
  "process_message (sample_env d1 d2 s) (sample_config das) sample_messaging (sample_sms p msg_received)
     = ([Log INFO ''SMS from %s: %s'' [Val (PyStr ''+491701234567''), Val (PyStr ''Hi'')],
         SmtpSend mail_received,
         (case s mail_received of
            None \<Rightarrow> Log INFO ''Email sent successfully.'' []
          | Some e \<Rightarrow> Log ERROR ''Failed to send email: %s'' [Exc e])]
        @ (if das then [Delete modem0 p, Log INFO ''Deleted SMS %s'' [Val (PyStr p)]] else []),
        Inr ())"
  "process_message (sample_env d1 d2 s) (sample_config das) sample_messaging (sample_sms p msg_received_later)
     = ([Log INFO ''SMS from %s: %s'' [Val (PyStr ''+491707654321''), Val (PyStr ''Ho'')],
         SmtpSend mail_received_later,
         (case s mail_received_later of
            None \<Rightarrow> Log INFO ''Email sent successfully.'' []
          | Some e \<Rightarrow> Log ERROR ''Failed to send email: %s'' [Exc e])]
        @ (if das then [Delete modem0 p, Log INFO ''Deleted SMS %s'' [Val (PyStr p)]] else []),
        Inr ())"
proof -
  have s1: "[Lit ''New SMS from '', Fmt (PyStr ''+491701234567'')] = subject mail_received"
    and b1: "[Lit ''From: '', Fmt (PyStr ''+491701234567''),
              Lit ''\<newline>Date: 01.01.2024, 10:00:00 Uhr\<newline>\<newline>'', Fmt (PyStr ''Hi'')] = body mail_received"
    and s2: "[Lit ''New SMS from '', Fmt (PyStr ''+491707654321'')] = subject mail_received_later"
    and b2: "[Lit ''From: '', Fmt (PyStr ''+491707654321''),
              Lit ''\<newline>Date: 02.01.2024, 09:30:00 Uhr\<newline>\<newline>'', Fmt (PyStr ''Ho'')] = body mail_received_later"
    by (simp_all add: mail_received_def mail_received_later_def)
  show "process_message (sample_env d1 d2 s) (sample_config das) sample_messaging (sample_sms p msg_received)
     = ([Log INFO ''SMS from %s: %s'' [Val (PyStr ''+491701234567''), Val (PyStr ''Hi'')],
         SmtpSend mail_received,
         (case s mail_received of
            None \<Rightarrow> Log INFO ''Email sent successfully.'' []
          | Some e \<Rightarrow> Log ERROR ''Failed to send email: %s'' [Exc e])]
        @ (if das then [Delete modem0 p, Log INFO ''Deleted SMS %s'' [Val (PyStr p)]] else []),
        Inr ())"
    by (simp add: process_message_def sample_fields sample_sender sample_dates s1 b1 sample_send
        delete_after_trace sample_env_fields sample_config_fields io_return_def)
  show "process_message (sample_env d1 d2 s) (sample_config das) sample_messaging (sample_sms p msg_received_later)
     = ([Log INFO ''SMS from %s: %s'' [Val (PyStr ''+491707654321''), Val (PyStr ''Ho'')],
         SmtpSend mail_received_later,
         (case s mail_received_later of
            None \<Rightarrow> Log INFO ''Email sent successfully.'' []
          | Some e \<Rightarrow> Log ERROR ''Failed to send email: %s'' [Exc e])]
        @ (if das then [Delete modem0 p, Log INFO ''Deleted SMS %s'' [Val (PyStr p)]] else []),
        Inr ())"
    by (simp add: process_message_def sample_fields sample_sender sample_dates s2 b2 sample_send
        delete_after_trace sample_env_fields sample_config_fields io_return_def)
qed

lemma sample_run_received:
  "get_sms (sample_env msg_received msg_received_later s) sample_messaging PyNone True
     = ([GetAll sms1 ''org.freedesktop.ModemManager1.Sms'', GetAll sms2 ''org.freedesktop.ModemManager1.Sms''],
        Inr (Many [sample_sms sms2 msg_received_later, sample_sms sms1 msg_received]))"
  by (simp add: sample_received_two sample_sms_def)

text \<open>C3 on the sample bus with two received messages, the later one first.\<close>

theorem delivery_in_order_witness:
  "(\<exists>ma mb. attempts (fst (process_messages (sample_env msg_received msg_received_later (\<lambda>e. None))
                                              (sample_config True)))
              = [SmtpSend ma, Delete modem0 sms2, SmtpSend mb, Delete modem0 sms1])
   \<and> length (filter is_send (fst (process_messages (sample_env msg_received msg_received_later (\<lambda>e. None))
                                                      (sample_config True)))) = 2
   \<and> length (filter is_delete (fst (process_messages (sample_env msg_received msg_received_later (\<lambda>e. None))
                                                        (sample_config True)))) = 2"
proof -
  let ?E = "sample_env msg_received msg_received_later (\<lambda>e. None)"
  let ?C = "sample_config True"
  note h = sample_run_manager [of msg_received msg_received_later "\<lambda>e. None"]
    sample_run_first [of msg_received msg_received_later "\<lambda>e. None"]
    sample_run_messaging [of msg_received msg_received_later "\<lambda>e. None"]
    sample_run_received [of "\<lambda>e. None"]
  have das: "delete_after_sending ?C"
    by (simp add: sample_config_fields)
  have ok: "snd (process_messages ?E ?C) = Inr ()"
    unfolding process_messages_unfold [OF h]
    by (simp add: sample_process io_bind_fst_snd io_return_def)
  note two = delivery_in_order [OF h, of ?C "sample_sms sms2 msg_received_later"
      "sample_sms sms1 msg_received", THEN conjunct2, THEN conjunct2, rule_format]
  from two [OF conjI [OF das conjI [OF refl ok]]]
  show ?thesis by (simp only: sample_fields)
qed

text \<open>C8 on a bus that enumerates no object.\<close>

theorem no_modem_no_work_witness:
  "process_messages ((sample_env msg_received msg_sent (\<lambda>e. None))\<lparr>managed_objects := Some []\<rparr>)
       (sample_config True) = ([GetManagedObjects], Inr ())
   \<and> \<not> list_ex is_fetch (fst (process_messages
         ((sample_env msg_received msg_sent (\<lambda>e. None))\<lparr>managed_objects := Some []\<rparr>) (sample_config True)))
   \<and> \<not> list_ex is_send (fst (process_messages
         ((sample_env msg_received msg_sent (\<lambda>e. None))\<lparr>managed_objects := Some []\<rparr>) (sample_config True)))
   \<and> \<not> list_ex is_delete (fst (process_messages
         ((sample_env msg_received msg_sent (\<lambda>e. None))\<lparr>managed_objects := Some []\<rparr>) (sample_config True)))"
proof -
  let ?E = "(sample_env msg_received msg_sent (\<lambda>e. None))\<lparr>managed_objects := Some []\<rparr>"
  have h1: "ModemManager ?E = ([GetManagedObjects], Inr \<lparr>modems = []\<rparr>)"
    by (simp add: ModemManager_def io_return_def)
  have h2: "get_first ?E \<lparr>modems = []\<rparr> = ([], Inr None)"
    by (simp add: get_first_def io_return_def)
  from no_modem_no_work [OF h1 h2, of "sample_config True"] show ?thesis by simp
qed

text \<open>C4 on the sample bus with an SMTP server that fails every session: the cycle over
  the two received messages attempts the later message after the failed send of the
  earlier one, and returns.\<close>

theorem send_failure_does_not_abort_witness:
  "process_messages (sample_env msg_received msg_received_later (\<lambda>e. Some SMTPException))
       (sample_config True)
     = ([GetManagedObjects,
         GetAll modem0 ''org.freedesktop.ModemManager1.Modem'',
         GetAll modem0 ''org.freedesktop.ModemManager1.Modem.Messaging'',
         GetAll sms1 ''org.freedesktop.ModemManager1.Sms'',
         GetAll sms2 ''org.freedesktop.ModemManager1.Sms'',
         Log INFO ''SMS from %s: %s'' [Val (PyStr ''+491707654321''), Val (PyStr ''Ho'')],
         SmtpSend mail_received_later,
         Log ERROR ''Failed to send email: %s'' [Exc SMTPException],
         Delete modem0 sms2,
         Log INFO ''Deleted SMS %s'' [Val (PyStr sms2)],
         Log INFO ''SMS from %s: %s'' [Val (PyStr ''+491701234567''), Val (PyStr ''Hi'')],
         SmtpSend mail_received,
         Log ERROR ''Failed to send email: %s'' [Exc SMTPException],
         Delete modem0 sms1,
         Log INFO ''Deleted SMS %s'' [Val (PyStr sms1)]],
        Inr ())"
proof -
  let ?E = "sample_env msg_received msg_received_later (\<lambda>e. Some SMTPException)"
  let ?C = "sample_config True"
  let ?a = "sample_sms sms2 msg_received_later"
  let ?b = "sample_sms sms1 msg_received"
  have h: "smtp ?E mail_received_later = Some SMTPException
      \<and> SmtpSend mail_received_later \<in> set (fst (process_message ?E ?C sample_messaging ?a))"
    by (simp add: sample_env_fields sample_process)
  have c: "ModemManager ?E = ([GetManagedObjects], Inr sample_manager)
      \<and> get_first ?E sample_manager
          = ([GetAll modem0 ''org.freedesktop.ModemManager1.Modem''], Inr (Some sample_modem0))
      \<and> MMModemMessaging ?E (Inr sample_modem0)
          = ([GetAll modem0 ''org.freedesktop.ModemManager1.Modem.Messaging''], Inr sample_messaging)
      \<and> get_sms ?E sample_messaging PyNone True
          = ([GetAll sms1 ''org.freedesktop.ModemManager1.Sms'',
              GetAll sms2 ''org.freedesktop.ModemManager1.Sms''],
             Inr (Many (?a # ?b # [])))"
    using sample_run_manager [of msg_received msg_received_later "\<lambda>e. Some SMTPException"]
      sample_run_first [of msg_received msg_received_later "\<lambda>e. Some SMTPException"]
      sample_run_messaging [of msg_received msg_received_later "\<lambda>e. Some SMTPException"]
      sample_run_received [of "\<lambda>e. Some SMTPException"]
    by simp
  note cycle = send_failure_does_not_abort [where E = ?E and C = ?C and msg = mail_received_later
      and e = SMTPException and mg = sample_messaging and a = ?a and b = ?b and rest = "[]"
      and mm = sample_manager and md = sample_modem0
      and ?e0.0 = "[GetManagedObjects]"
      and ?e1.0 = "[GetAll modem0 ''org.freedesktop.ModemManager1.Modem'']"
      and ?e2.0 = "[GetAll modem0 ''org.freedesktop.ModemManager1.Modem.Messaging'']"
      and ?e3.0 = "[GetAll sms1 ''org.freedesktop.ModemManager1.Sms'',
                    GetAll sms2 ''org.freedesktop.ModemManager1.Sms'']",
      THEN conjunct2, THEN conjunct1, rule_format, OF h,
      THEN conjunct2, THEN conjunct2, THEN conjunct2, THEN conjunct2, rule_format, OF c]
  show ?thesis
    unfolding cycle by (simp add: sample_process io_return_def)
qed


end
